theory Spec2Isabelle
  imports Complex_Main
begin

section \<open>Numbers\<close>

text \<open>
  The program computes with JavaScript numbers. The samples of an array, the sample rate
  and the shot times are finite and are modelled as real numbers: rounding (to double
  precision, and to single precision when a \<^verbatim>\<open>Float32Array\<close> is written) and the
  sign of zero are not modelled. A configuration value or an option is any number the
  caller passes, \<open>NaN\<close> and the infinities included (the user interface passes the
  \<open>NaN\<close> of \<^verbatim>\<open>parseFloat\<close> for an empty field): these, and every result that can
  be non-finite (the maximum of an empty array, a division by zero), have the type
  \<open>num\<close>, whose comparisons and arithmetic follow IEEE 754 on the non-finite values.
\<close>

datatype num = NaN | NegInfinity | Finite real | Infinity

fun num_lt :: "num \<Rightarrow> num \<Rightarrow> bool" where
  "num_lt NaN b = False"
| "num_lt a NaN = False"
| "num_lt NegInfinity NegInfinity = False"
| "num_lt NegInfinity b = True"
| "num_lt (Finite x) NegInfinity = False"
| "num_lt (Finite x) (Finite y) = (x < y)"
| "num_lt (Finite x) Infinity = True"
| "num_lt Infinity b = False"

definition num_gt :: "num \<Rightarrow> num \<Rightarrow> bool" where
  "num_gt a b = num_lt b a"

definition num_le :: "num \<Rightarrow> num \<Rightarrow> bool" where
  "num_le a b = (num_lt a b \<or> (a = b \<and> a \<noteq> NaN))"

definition num_ge :: "num \<Rightarrow> num \<Rightarrow> bool" where
  "num_ge a b = num_le b a"

fun num_plus :: "num \<Rightarrow> num \<Rightarrow> num" where
  "num_plus NaN b = NaN"
| "num_plus a NaN = NaN"
| "num_plus (Finite x) (Finite y) = Finite (x + y)"
| "num_plus (Finite x) b = b"
| "num_plus Infinity NegInfinity = NaN"
| "num_plus NegInfinity Infinity = NaN"
| "num_plus a b = a"

fun num_minus :: "num \<Rightarrow> num \<Rightarrow> num" where
  "num_minus NaN b = NaN"
| "num_minus a NaN = NaN"
| "num_minus (Finite x) (Finite y) = Finite (x - y)"
| "num_minus (Finite x) Infinity = NegInfinity"
| "num_minus (Finite x) NegInfinity = Infinity"
| "num_minus Infinity Infinity = NaN"
| "num_minus Infinity b = Infinity"
| "num_minus NegInfinity NegInfinity = NaN"
| "num_minus NegInfinity b = NegInfinity"

definition inf_times :: "real \<Rightarrow> num" where
  \<comment> \<open>The product of \<open>+Infinity\<close> and a finite number.\<close>
  "inf_times x = (if x > 0 then Infinity else if x < 0 then NegInfinity else NaN)"

fun num_times :: "num \<Rightarrow> num \<Rightarrow> num" where
  "num_times NaN b = NaN"
| "num_times a NaN = NaN"
| "num_times (Finite x) (Finite y) = Finite (x * y)"
| "num_times (Finite x) Infinity = inf_times x"
| "num_times (Finite x) NegInfinity = inf_times (- x)"
| "num_times Infinity (Finite y) = inf_times y"
| "num_times NegInfinity (Finite y) = inf_times (- y)"
| "num_times Infinity Infinity = Infinity"
| "num_times Infinity NegInfinity = NegInfinity"
| "num_times NegInfinity Infinity = NegInfinity"
| "num_times NegInfinity NegInfinity = Infinity"

fun num_divide :: "num \<Rightarrow> num \<Rightarrow> num" where
  "num_divide NaN b = NaN"
| "num_divide a NaN = NaN"
| "num_divide (Finite x) (Finite y) = (if y = 0 then inf_times x else Finite (x / y))"
| "num_divide (Finite x) b = Finite 0"
| "num_divide Infinity (Finite y) = (if y < 0 then NegInfinity else Infinity)"
| "num_divide NegInfinity (Finite y) = (if y < 0 then Infinity else NegInfinity)"
| "num_divide a b = NaN"

fun num_floor :: "num \<Rightarrow> num" where
  \<comment> \<open>\<^verbatim>\<open>Math.floor\<close>\<close>
  "num_floor (Finite x) = Finite (real_of_int \<lfloor>x\<rfloor>)"
| "num_floor a = a"

definition num_max :: "num \<Rightarrow> num \<Rightarrow> num" where
  \<comment> \<open>\<^verbatim>\<open>Math.max\<close> of two arguments: \<open>NaN\<close> when either is \<open>NaN\<close>.\<close>
  "num_max a b = (if a = NaN \<or> b = NaN then NaN else if num_lt a b then b else a)"

section \<open>Signal processing library\<close>

subsection \<open>Statistical functions\<close>

definition mean :: "real list \<Rightarrow> real" where
  "mean arr = (if length arr = 0 then 0 else foldl (+) 0 arr / real (length arr))"

definition std :: "real list \<Rightarrow> real" where
  "std arr =
     (if length arr = 0 then 0
      else let m = mean arr;
               sumSquaredDiff = foldl (\<lambda>s x. s + (x - m) * (x - m)) 0 arr
           in sqrt (sumSquaredDiff / real (length arr)))"

fun max_loop :: "real \<Rightarrow> real list \<Rightarrow> real" where
  "max_loop maxVal [] = maxVal"
| "max_loop maxVal (x # xs) = max_loop (if x > maxVal then x else maxVal) xs"

definition max_arr :: "real list \<Rightarrow> num" where
  "max_arr arr = (case arr of [] \<Rightarrow> NegInfinity | x # xs \<Rightarrow> Finite (max_loop x xs))"

fun min_loop :: "real \<Rightarrow> real list \<Rightarrow> real" where
  "min_loop minVal [] = minVal"
| "min_loop minVal (x # xs) = min_loop (if x < minVal then x else minVal) xs"

definition min_arr :: "real list \<Rightarrow> num" where
  "min_arr arr = (case arr of [] \<Rightarrow> Infinity | x # xs \<Rightarrow> Finite (min_loop x xs))"

definition median :: "real list \<Rightarrow> real" where
  "median arr =
     (if length arr = 0 then 0
      else let sorted = sort arr;
               mid = length sorted div 2
           in if length sorted mod 2 = 0 then (sorted ! (mid - 1) + sorted ! mid) / 2
              else sorted ! mid)"

subsection \<open>Array operations\<close>

definition abs_arr :: "real list \<Rightarrow> real list" where
  "abs_arr arr = map (\<lambda>x. \<bar>x\<bar>) arr"

definition diff :: "real list \<Rightarrow> real list" where
  "diff arr =
     (if length arr \<le> 1 then []
      else map (\<lambda>i. arr ! (i + 1) - arr ! i) [0 ..< length arr - 1])"

subsection \<open>Convolution\<close>

datatype error =
    OnlySameModeSupported          \<comment> \<open>\<^verbatim>\<open>Only "same" mode is currently supported\<close>\<close>
  | MustCallExtractAudioFirst      \<comment> \<open>\<^verbatim>\<open>Must call extractAudio first\<close>\<close>
  | MustCallCalculateEnvelopeFirst \<comment> \<open>\<^verbatim>\<open>Must call calculateEnvelope first\<close>\<close>
  | InvalidTypedArrayLength        \<comment> \<open>the \<^verbatim>\<open>RangeError\<close> of \<^verbatim>\<open>new Float32Array(Infinity)\<close>\<close>

definition convolve_step ::
  "real list \<Rightarrow> real list \<Rightarrow> nat \<Rightarrow> int \<Rightarrow> real \<times> nat \<Rightarrow> nat \<Rightarrow> real \<times> nat" where
  \<comment> \<open>One iteration of the inner loop over \<open>j\<close>; the state is \<open>(sum, count)\<close>.\<close>
  "convolve_step signal kern i halfKernel st j =
     (let signalIdx = int i - halfKernel + int j
      in if signalIdx \<ge> 0 \<and> signalIdx < int (length signal)
         then (fst st + signal ! nat signalIdx * kern ! j, snd st + 1)
         else st)"

definition convolve :: "real list \<Rightarrow> real list \<Rightarrow> string \<Rightarrow> error + real list" where
  "convolve signal kern mode =
     (let signalLen = length signal;
          kernelLen = length kern
      in if mode = ''same'' then
           let halfKernel = int (kernelLen div 2)
           in Inr (map (\<lambda>i. fst (foldl (convolve_step signal kern i halfKernel) (0, 0)
                                      [0 ..< kernelLen]))
                       [0 ..< signalLen])
         else Inl OnlySameModeSupported)"

text \<open>
  The zero-padded convolution that the specification contrasts \<open>convolve\<close> with: the
  same alignment, but every tap contributes, a sample outside the signal counting as 0.
  This definition follows the specification's words, not the source.
\<close>

definition padded_sample :: "real list \<Rightarrow> int \<Rightarrow> real" where
  "padded_sample signal k =
     (if k \<ge> 0 \<and> k < int (length signal) then signal ! nat k else 0)"

definition convolve_zero_padded :: "real list \<Rightarrow> real list \<Rightarrow> real list" where
  "convolve_zero_padded signal kern =
     map (\<lambda>i. foldl (\<lambda>s j. s + padded_sample signal (int i - int (length kern div 2) + int j)
                                 * kern ! j) 0 [0 ..< length kern])
         [0 ..< length signal]"

subsection \<open>Peak detection\<close>

text \<open>
  The options object of \<open>findPeaks\<close>: an absent field is \<open>None\<close> and takes the default of
  the destructuring (\<open>-Infinity\<close>, 1 and 0); a field that is present is any number.
\<close>

record options =
  opt_height :: "num option"
  opt_distance :: "num option"
  opt_prominence :: "num option"

definition defaulted :: "'a option \<Rightarrow> 'a \<Rightarrow> 'a" where
  \<comment> \<open>A destructuring default \<^verbatim>\<open>{field = d}\<close>.\<close>
  "defaulted x d = (case x of None \<Rightarrow> d | Some v \<Rightarrow> v)"

record peaks_result =
  peaks :: "nat list"
  heights :: "real list"

definition localMaxima :: "real list \<Rightarrow> nat list" where
  "localMaxima data =
     filter (\<lambda>i. data ! i > data ! (i - 1) \<and> data ! i > data ! (i + 1)) [1 ..< length data - 1]"

definition heightFilter :: "real list \<Rightarrow> num \<Rightarrow> nat list \<Rightarrow> nat list" where
  "heightFilter data height cands = filter (\<lambda>idx. num_ge (Finite (data ! idx)) height) cands"

fun look_left :: "real list \<Rightarrow> real \<Rightarrow> nat \<Rightarrow> real \<Rightarrow> real" where
  \<comment> \<open>\<open>look_left data peakHeight k leftMin\<close>: the loop \<^verbatim>\<open>for (i = k - 1; i >= 0; i--)\<close>.\<close>
  "look_left data peakHeight 0 leftMin = leftMin"
| "look_left data peakHeight (Suc i) leftMin =
     (let leftMin' = (if data ! i < leftMin then data ! i else leftMin)
      in if data ! i \<ge> peakHeight then leftMin'
         else look_left data peakHeight i leftMin')"

function look_right :: "real list \<Rightarrow> real \<Rightarrow> nat \<Rightarrow> real \<Rightarrow> real" where
  \<comment> \<open>\<open>look_right data peakHeight i rightMin\<close>: the loop \<^verbatim>\<open>for (; i < n; i++)\<close>.\<close>
  "look_right data peakHeight i rightMin =
     (if i < length data then
        let rightMin' = (if data ! i < rightMin then data ! i else rightMin)
        in if data ! i \<ge> peakHeight then rightMin'
           else look_right data peakHeight (i + 1) rightMin'
      else rightMin)"
  by pat_completeness auto
termination
  by (relation "measure (\<lambda>(data, peakHeight, i, rightMin). length data - i)") auto

declare look_right.simps [simp del]

definition prominenceValue :: "real list \<Rightarrow> nat \<Rightarrow> real" where
  "prominenceValue data idx =
     (let peakHeight = data ! idx;
          leftMin = look_left data peakHeight idx peakHeight;
          rightMin = look_right data peakHeight (idx + 1) peakHeight
      in peakHeight - max leftMin rightMin)"

definition prominenceFilter :: "real list \<Rightarrow> num \<Rightarrow> nat list \<Rightarrow> nat list" where
  "prominenceFilter data prominence heightFiltered =
     (if num_gt prominence (Finite 0) then
        let maxSignal = max_arr data;
            minProminence = num_times prominence maxSignal
        in filter (\<lambda>idx. num_ge (Finite (prominenceValue data idx)) minProminence) heightFiltered
      else heightFiltered)"

definition prominenceFiltered :: "real list \<Rightarrow> options \<Rightarrow> nat list" where
  \<comment> \<open>The value of the variable \<open>prominenceFiltered\<close>: the candidates after steps 1 to 3.\<close>
  "prominenceFiltered data opts =
     prominenceFilter data (defaulted (opt_prominence opts) (Finite 0))
       (heightFilter data (defaulted (opt_height opts) NegInfinity) (localMaxima data))"

definition sortByHeight :: "real list \<Rightarrow> nat list \<Rightarrow> nat list" where
  \<comment> \<open>\<^verbatim>\<open>.sort((a, b) => b.height - a.height)\<close>: descending by height; the sort of
      the language is stable, as is \<open>sort_key\<close>.\<close>
  "sortByHeight data cands = sort_key (\<lambda>idx. - (data ! idx)) cands"

definition tooClose :: "num \<Rightarrow> nat list \<Rightarrow> nat \<Rightarrow> bool" where
  "tooClose distance accepted idx =
     list_ex (\<lambda>existingPeak.
                num_lt (Finite \<bar>real_of_int (int idx - int existingPeak)\<bar>) distance) accepted"

definition accept_step :: "num \<Rightarrow> nat list \<Rightarrow> nat \<Rightarrow> nat list" where
  \<comment> \<open>One iteration of the loop over \<open>sortedByHeight\<close>; the state is the array \<open>peaks\<close>.\<close>
  "accept_step distance accepted idx =
     (if \<not> tooClose distance accepted idx then accepted @ [idx] else accepted)"

definition distanceFilter :: "num \<Rightarrow> nat list \<Rightarrow> nat list" where
  "distanceFilter distance sortedByHeight = foldl (accept_step distance) [] sortedByHeight"

definition findPeaks :: "real list \<Rightarrow> options \<Rightarrow> peaks_result" where
  "findPeaks data opts =
     (let distance = defaulted (opt_distance opts) (Finite 1);
          n = length data
      in if n < 3 then \<lparr>peaks = [], heights = []\<rparr>
         else
           let candidates = prominenceFiltered data opts
           in if length candidates = 0 then \<lparr>peaks = [], heights = []\<rparr>
              else
                let sortedByHeight = sortByHeight data candidates;
                    ps = sort (distanceFilter distance sortedByHeight)
                in \<lparr>peaks = ps, heights = map (\<lambda>idx. data ! idx) ps\<rparr>)"

definition ones :: "nat \<Rightarrow> real list" where
  "ones n = replicate n 1"

definition divide_arr :: "real list \<Rightarrow> real \<Rightarrow> real list" where
  \<comment> \<open>Called with a scalar greater than 1 only; a zero scalar is outside this model.\<close>
  "divide_arr arr scalar = map (\<lambda>x. x / scalar) arr"

section \<open>Rate-of-fire detector\<close>

record detector_options =
  opt_peakThresholdStd :: "num option"
  opt_minShotSpacing :: "num option"
  opt_burstGapThreshold :: "num option"
  opt_windowSize :: "num option"
  opt_minPeakProminence :: "num option"
  opt_minBurstCount :: "num option"

record detector =
  peakThresholdStd :: num
  minShotSpacing :: num
  burstGapThreshold :: num
  windowSize :: num
  minPeakProminence :: num
  minBurstCount :: num
  sampleRate :: "real option"        \<comment> \<open>\<open>None\<close> is \<^verbatim>\<open>null\<close>\<close>
  audioData :: "real list option"
  envelope :: "real list option"
  shotTimes :: "real list"
  bursts :: "nat list list"          \<comment> \<open>each burst: indices into \<open>shotTimes\<close>\<close>

definition nullish :: "'a option \<Rightarrow> 'a \<Rightarrow> 'a" where
  \<comment> \<open>\<^verbatim>\<open>x ?? d\<close>\<close>
  "nullish x d = (case x of None \<Rightarrow> d | Some v \<Rightarrow> v)"

definition RateOfFireDetector :: "detector_options \<Rightarrow> detector" where
  "RateOfFireDetector opts =
     \<lparr>peakThresholdStd = nullish (opt_peakThresholdStd opts) (Finite 1.2),
      minShotSpacing = nullish (opt_minShotSpacing opts) (Finite 0.05),
      burstGapThreshold = nullish (opt_burstGapThreshold opts) (Finite 0.2),
      windowSize = nullish (opt_windowSize opts) (Finite 0.002),
      minPeakProminence = nullish (opt_minPeakProminence opts) (Finite 0.1),
      minBurstCount = nullish (opt_minBurstCount opts) (Finite 5),
      sampleRate = None,
      audioData = None,
      envelope = None,
      shotTimes = [],
      bursts = []\<rparr>"

definition no_options :: detector_options where
  \<comment> \<open>The default argument \<^verbatim>\<open>options = {}\<close>.\<close>
  "no_options =
     \<lparr>opt_peakThresholdStd = None, opt_minShotSpacing = None, opt_burstGapThreshold = None,
      opt_windowSize = None, opt_minPeakProminence = None, opt_minBurstCount = None\<rparr>"

definition extractAudio :: "real \<Rightarrow> real list \<Rightarrow> detector \<Rightarrow> detector" where
  \<comment> \<open>The effect of \<^verbatim>\<open>extractAudio\<close> on the detector; the decoding that yields the sample
      rate and the samples is outside the program.\<close>
  "extractAudio rate samples d = d\<lparr>sampleRate := Some rate, audioData := Some samples\<rparr>"

definition falsy_rate :: "real option \<Rightarrow> bool" where
  \<comment> \<open>\<^verbatim>\<open>!this.sampleRate\<close>: \<^verbatim>\<open>null\<close> and 0 are falsy.\<close>
  "falsy_rate r = (case r of None \<Rightarrow> True | Some v \<Rightarrow> v = 0)"

definition calculateEnvelope :: "detector \<Rightarrow> error + detector" where
  \<comment> \<open>\<^verbatim>\<open>ones(windowSamples)\<close> allocates an array of that length, which fails for an
      infinite length; a failed allocation of a huge finite length is not modelled.\<close>
  "calculateEnvelope d =
     (case audioData d of
        None \<Rightarrow> Inl MustCallExtractAudioFirst
      | Some samples \<Rightarrow>
          if falsy_rate (sampleRate d) then Inl MustCallExtractAudioFirst
          else
            let windowSamples =
                  num_max (num_floor (num_times (windowSize d) (Finite (the (sampleRate d)))))
                          (Finite 1);
                absAudio = abs_arr samples
            in if num_gt windowSamples (Finite 1) then
                 (case windowSamples of
                    Finite w \<Rightarrow>
                      let window = divide_arr (ones (nat \<lfloor>w\<rfloor>)) w
                      in (case convolve absAudio window ''same'' of
                            Inl e \<Rightarrow> Inl e
                          | Inr env \<Rightarrow> Inr (d\<lparr>envelope := Some env\<rparr>))
                  | _ \<Rightarrow> Inl InvalidTypedArrayLength)
               else Inr (d\<lparr>envelope := Some absAudio\<rparr>))"

definition detectPeaks :: "detector \<Rightarrow> error + peaks_result \<times> detector" where
  "detectPeaks d =
     (case envelope d of
        None \<Rightarrow> Inl MustCallCalculateEnvelopeFirst
      | Some env \<Rightarrow>
          if falsy_rate (sampleRate d) then Inl MustCallCalculateEnvelopeFirst
          else
            let rate = the (sampleRate d);
                meanLevel = mean env;
                stdLevel = std env;
                threshold = num_plus (Finite meanLevel)
                                     (num_times (peakThresholdStd d) (Finite stdLevel));
                minDistance = num_floor (num_times (minShotSpacing d) (Finite rate));
                found = findPeaks env
                          \<lparr>opt_height = Some threshold,
                           opt_distance = Some minDistance,
                           opt_prominence = Some (minPeakProminence d)\<rparr>
            in Inr (found, d\<lparr>shotTimes := map (\<lambda>idx. real idx / rate) (peaks found)\<rparr>))"

definition group_step ::
  "real list \<Rightarrow> num \<Rightarrow> num \<Rightarrow> nat list list \<times> nat list \<Rightarrow> nat \<Rightarrow> nat list list \<times> nat list" where
  \<comment> \<open>One iteration of the loop over \<open>i\<close>; the state is \<open>(bursts, currentBurst)\<close>.\<close>
  "group_step shots gapThreshold minCount st i =
     (let gap = shots ! i - shots ! (i - 1)
      in if num_le (Finite gap) gapThreshold then (fst st, snd st @ [i])
         else ((if num_ge (Finite (real (length (snd st)))) minCount then fst st @ [snd st]
                else fst st), [i]))"

definition groupIntoBursts :: "detector \<Rightarrow> error + detector" where
  \<comment> \<open>The source has no \<^verbatim>\<open>throw\<close> here: every result is \<open>Inr\<close>.\<close>
  "groupIntoBursts d =
     (if length (shotTimes d) = 0 then Inr d
      else
        let st = foldl (group_step (shotTimes d) (burstGapThreshold d) (minBurstCount d))
                       ([], [0]) [1 ..< length (shotTimes d)];
            final = (if num_ge (Finite (real (length (snd st)))) (minBurstCount d)
                     then fst st @ [snd st] else fst st)
        in Inr (d\<lparr>bursts := final\<rparr>))"

record burst_info =
  burstNumber :: nat
  startTime :: real
  endTime :: real
  duration :: real
  numShots :: nat
  rateRpm :: real
  meanInterval :: real
  stdInterval :: real
  minInterval :: num
  maxInterval :: num
  burstShotTimes :: "real list"      \<comment> \<open>the field \<^verbatim>\<open>shotTimes\<close> of a burst\<close>

definition burst_readable :: "real list \<Rightarrow> nat list \<Rightarrow> bool" where
  \<comment> \<open>Every read \<^verbatim>\<open>this.shotTimes[idx]\<close> and \<^verbatim>\<open>shots[0]\<close> is in range.\<close>
  "burst_readable shots burst = (burst \<noteq> [] \<and> list_all (\<lambda>idx. idx < length shots) burst)"

definition burstInfo :: "real list \<Rightarrow> nat \<Rightarrow> nat list \<Rightarrow> burst_info" where
  \<comment> \<open>The body of the loop of \<^verbatim>\<open>calculateRates\<close>, for the burst at \<open>burstIdx\<close>.\<close>
  "burstInfo allTimes burstIdx burst =
     (let shots = map (\<lambda>idx. allTimes ! idx) burst;
          t0 = shots ! 0;
          tn = shots ! (length shots - 1);
          dur = tn - t0;
          n = length shots;
          rate = (if dur > 0 then ((real n - 1) / dur) * 60 else 0);
          intervals = diff shots
      in \<lparr>burstNumber = burstIdx + 1, startTime = t0, endTime = tn, duration = dur,
          numShots = n, rateRpm = rate, meanInterval = mean intervals,
          stdInterval = std intervals, minInterval = min_arr intervals,
          maxInterval = max_arr intervals, burstShotTimes = shots\<rparr>)"

definition calculateRates :: "detector \<Rightarrow> burst_info list option" where
  \<comment> \<open>\<open>None\<close>: a burst is empty or holds an index outside \<open>shotTimes\<close>; the source
      then reads \<^verbatim>\<open>undefined\<close>, which this model of numbers does not cover.\<close>
  "calculateRates d =
     (if list_all (burst_readable (shotTimes d)) (bursts d)
      then Some (map (\<lambda>burstIdx. burstInfo (shotTimes d) burstIdx (bursts d ! burstIdx))
                     [0 ..< length (bursts d)])
      else None)"

record summary =
  totalShots :: nat
  totalBursts :: nat
  overallRateRpm :: num
  meanBurstRateRpm :: real
  medianBurstRateRpm :: real
  minBurstRateRpm :: num
  maxBurstRateRpm :: num
  stdBurstRateRpm :: real

definition generateSummary :: "burst_info list \<Rightarrow> summary" where
  \<comment> \<open>A \<^verbatim>\<open>null\<close> argument takes the branch of the empty list.\<close>
  "generateSummary burstResults =
     (if length burstResults = 0 then
        \<lparr>totalShots = 0, totalBursts = 0, overallRateRpm = Finite 0, meanBurstRateRpm = 0,
         medianBurstRateRpm = 0, minBurstRateRpm = Finite 0, maxBurstRateRpm = Finite 0,
         stdBurstRateRpm = 0\<rparr>
      else
        let rates = map rateRpm burstResults;
            total = foldl (\<lambda>acc b. acc + numShots b) 0 burstResults;
            allShotTimes = concat (map burstShotTimes burstResults);
            overallRate =
              (if length allShotTimes \<ge> 2 then
                 let totalDuration = num_minus (max_arr allShotTimes) (min_arr allShotTimes)
                 in num_times (num_divide (Finite (real (length allShotTimes) - 1)) totalDuration)
                              (Finite 60)
               else Finite 0)
        in \<lparr>totalShots = total, totalBursts = length burstResults,
            overallRateRpm = overallRate, meanBurstRateRpm = mean rates,
            medianBurstRateRpm = median rates, minBurstRateRpm = min_arr rates,
            maxBurstRateRpm = max_arr rates, stdBurstRateRpm = std rates\<rparr>)"

section \<open>Notions of the specification\<close>

text \<open>
  The samples that the prominence scan of the specification visits: from the peak towards
  the start (towards the end) of the sequence, up to but excluding the first sample that
  is not below the peak. These definitions follow the specification's words.
\<close>

definition scanned_left :: "real list \<Rightarrow> nat \<Rightarrow> real list" where
  "scanned_left data idx = takeWhile (\<lambda>v. v < data ! idx) (rev (take idx data))"

definition scanned_right :: "real list \<Rightarrow> nat \<Rightarrow> real list" where
  "scanned_right data idx = takeWhile (\<lambda>v. v < data ! idx) (drop (idx + 1) data)"

definition processed_before :: "real list \<Rightarrow> nat \<Rightarrow> nat \<Rightarrow> bool" where
  \<comment> \<open>Descending order of height; among equal heights, ascending order of index.\<close>
  "processed_before data a b = (data ! a > data ! b \<or> (data ! a = data ! b \<and> a < b))"

definition closer_than :: "num \<Rightarrow> nat \<Rightarrow> nat \<Rightarrow> bool" where
  \<comment> \<open>Two indices are within \<open>distance\<close> of each other (exclusive bound).\<close>
  "closer_than distance i j = num_lt (Finite \<bar>real_of_int (int i - int j)\<bar>) distance"

text \<open>
  Two detectors after peak detection, given by their configuration and shot times: the
  six shots of the specification's grouping example, and nineteen shots in two bursts
  (fourteen shots one second apart, then five shots two seconds apart).
\<close>

definition two_burst_fixture :: detector where
  "two_burst_fixture =
     (RateOfFireDetector
        (no_options\<lparr>opt_burstGapThreshold := Some (Finite 0.2),
                     opt_minBurstCount := Some (Finite 3)\<rparr>))
       \<lparr>shotTimes := [0.0, 0.1, 0.15, 0.5, 0.55, 0.6]\<rparr>"

definition equal_rates_fixture :: detector where
  "equal_rates_fixture =
     (RateOfFireDetector (no_options\<lparr>opt_burstGapThreshold := Some (Finite 2.5)\<rparr>))
       \<lparr>shotTimes := [0, 1, 2, 3, 4, 5, 6, 7, 8, 9, 10, 11, 12, 13, 16, 18, 20, 22, 24]\<rparr>"

definition five_shot_fixture :: detector where
  \<comment> \<open>Five shots spanning 0.4 s, after peak detection, with the default configuration.\<close>
  "five_shot_fixture =
     (RateOfFireDetector no_options)
       \<lparr>shotTimes := [0, 0.1, 0.2, 0.3, 0.4]\<rparr>"

definition single_shot_fixture :: detector where
  \<comment> \<open>One shot after peak detection; a burst when the minimum burst count is 1.\<close>
  "single_shot_fixture =
     (RateOfFireDetector (no_options\<lparr>opt_minBurstCount := Some (Finite 1)\<rparr>))
       \<lparr>shotTimes := [2]\<rparr>"

definition stale_detector :: detector where
  \<comment> \<open>A reused detector: no shot times, and one burst left over from an earlier run.\<close>
  "stale_detector = (RateOfFireDetector no_options)\<lparr>bursts := [[0, 1, 2]]\<rparr>"

section \<open>Properties of the numeric primitives\<close>

text \<open>C9: on an empty array, \<open>mean\<close>, \<open>std\<close> and \<open>median\<close> return 0,
  \<open>max\<close> returns \<open>-Infinity\<close> and \<open>min\<close> returns \<open>+Infinity\<close>; none of them
  raises an error (each is a total function whose result is a number).\<close>

theorem empty_input_sentinels:
  "mean [] = 0 \<and> std [] = 0 \<and> median [] = 0 \<and> max_arr [] = NegInfinity \<and> min_arr [] = Infinity"
  by (simp add: mean_def std_def median_def max_arr_def min_arr_def)

lemma Max_insert_max: "finite S \<Longrightarrow> Max (insert (max a b) S) = Max (insert a (insert b S))"
  by (cases "S = {}") (simp_all add: max.assoc)

lemma Min_insert_min: "finite S \<Longrightarrow> Min (insert (min a b) S) = Min (insert a (insert b S))"
  by (cases "S = {}") (simp_all add: min.assoc)

lemma max_loop_Max: "max_loop m xs = Max (insert m (set xs))"
proof (induction xs arbitrary: m)
  case Nil
  show ?case by simp
next
  case (Cons x xs)
  have "(if x > m then x else m) = max m x" by (simp add: max_def)
  then show ?case using Cons by (simp add: Max_insert_max)
qed

lemma min_loop_Min: "min_loop m xs = Min (insert m (set xs))"
proof (induction xs arbitrary: m)
  case Nil
  show ?case by simp
next
  case (Cons x xs)
  have "(if x < m then x else m) = min m x" by (simp add: min_def)
  then show ?case using Cons by (simp add: Min_insert_min)
qed

lemma max_arr_Max: "arr \<noteq> [] \<Longrightarrow> max_arr arr = Finite (Max (set arr))"
  by (cases arr) (simp_all add: max_arr_def max_loop_Max)

lemma min_arr_Min: "arr \<noteq> [] \<Longrightarrow> min_arr arr = Finite (Min (set arr))"
  by (cases arr) (simp_all add: min_arr_def min_loop_Min)

lemma foldl_plus_sum_list: "foldl (+) (a::real) xs = a + sum_list xs"
  by (induction xs arbitrary: a) simp_all

lemma mean_sum_list: "mean arr = sum_list arr / real (length arr)"
  by (simp add: mean_def foldl_plus_sum_list)

section \<open>Convolution drops exactly the terms that zero-padding would add\<close>

lemma convolve_inner_eq:
  "fst (foldl (convolve_step signal kern i (int (length kern div 2))) st js) =
   foldl (\<lambda>s j. s + padded_sample signal (int i - int (length kern div 2) + int j) * kern ! j)
         (fst st) js"
  by (induction js arbitrary: st) (simp_all add: convolve_step_def padded_sample_def Let_def)

lemma convolve_same_eq: "convolve signal kern ''same'' = Inr (convolve_zero_padded signal kern)"
  by (simp add: convolve_def convolve_zero_padded_def Let_def convolve_inner_eq)

text \<open>C3 (as stated: for some signal and kernel, \<open>convolve\<close> in "same" mode differs from the
  zero-padded convolution). No such signal and kernel exist.\<close>

theorem convolve_differs_counterexample:
  "\<not> (\<exists>signal kern. convolve signal kern ''same'' \<noteq> Inr (convolve_zero_padded signal kern))"
  by (simp add: convolve_same_eq)

text \<open>C3 (amended): for every signal and every kernel, \<open>convolve\<close> in "same" mode returns
  exactly the zero-padded convolution with the same alignment: a dropped term and a
  zero-padded term both contribute nothing to the sum, and the count of the terms in range
  is never used.\<close>

theorem convolve_same_is_zero_padded:
  "convolve signal kern ''same'' = Inr (convolve_zero_padded signal kern)"
  by (rule convolve_same_eq)

section \<open>Peak detection\<close>

subsection \<open>The prominence filter\<close>

lemma look_left_Min:
  "k \<le> length data \<Longrightarrow> lm \<le> ph \<Longrightarrow>
   look_left data ph k lm = Min (insert lm (set (takeWhile (\<lambda>v. v < ph) (rev (take k data)))))"
proof (induction k arbitrary: lm)
  case 0
  then show ?case by simp
next
  case (Suc i)
  then have i: "i < length data" by simp
  have tk: "rev (take (Suc i) data) = data ! i # rev (take i data)"
    using i by (simp add: take_Suc_conv_app_nth)
  show ?case
  proof (cases "data ! i \<ge> ph")
    case True
    with Suc.prems show ?thesis by (simp add: tk Let_def)
  next
    case False
    let ?rest = "set (takeWhile (\<lambda>v. v < ph) (rev (take i data)))"
    have lm': "(if data ! i < lm then data ! i else lm) = min lm (data ! i)"
      by (simp add: min_def)
    have "min lm (data ! i) \<le> ph" using Suc.prems by simp
    moreover have "i \<le> length data" using i by simp
    ultimately have "look_left data ph i (min lm (data ! i)) = Min (insert (min lm (data ! i)) ?rest)"
      by (rule Suc.IH[rotated])
    then show ?thesis using False by (simp add: tk Let_def lm' Min_insert_min)
  qed
qed

lemma look_right_Min:
  "rm \<le> ph \<Longrightarrow>
   look_right data ph i rm = Min (insert rm (set (takeWhile (\<lambda>v. v < ph) (drop i data))))"
proof (induction data ph i rm rule: look_right.induct)
  case (1 data ph i rm)
  show ?case
  proof (cases "i < length data")
    case False
    then show ?thesis by (simp add: look_right.simps)
  next
    case len: True
    have dr: "drop i data = data ! i # drop (i + 1) data"
      using len by (simp add: Cons_nth_drop_Suc)
    show ?thesis
    proof (cases "data ! i \<ge> ph")
      case True
      with len "1.prems" show ?thesis
        by (subst look_right.simps) (simp add: dr Let_def)
    next
      case False
      let ?rest = "set (takeWhile (\<lambda>v. v < ph) (drop (i + 1) data))"
      have rm': "(if data ! i < rm then data ! i else rm) = min rm (data ! i)"
        by (simp add: min_def)
      have le: "(if data ! i < rm then data ! i else rm) \<le> ph"
        using "1.prems" False by simp
      have "look_right data ph (i + 1) (if data ! i < rm then data ! i else rm)
            = Min (insert (if data ! i < rm then data ! i else rm) ?rest)"
        using "1.IH"[OF len refl False le] .
      then have "look_right data ph (i + 1) (min rm (data ! i))
                 = Min (insert (min rm (data ! i)) ?rest)"
        by (simp only: rm')
      then show ?thesis using False len
        by (subst look_right.simps) (simp add: dr Let_def rm' Min_insert_min del: drop_Suc)
    qed
  qed
qed

lemma Min_insert_above:
  "finite S \<Longrightarrow> S \<noteq> {} \<Longrightarrow> \<forall>v\<in>S. v < (ph::real) \<Longrightarrow> Min (insert ph S) = Min S"
  by (simp add: min_def) (meson Min_in not_less order_less_imp_le)

lemma localMaxima_iff:
  "idx \<in> set (localMaxima data) \<longleftrightarrow>
     1 \<le> idx \<and> idx + 1 < length data \<and> data ! idx > data ! (idx - 1) \<and> data ! idx > data ! (idx + 1)"
  by (auto simp: localMaxima_def)

lemma scanned_left_props:
  assumes "idx \<in> set (localMaxima data)"
  shows "set (scanned_left data idx) \<noteq> {}" "\<forall>v\<in>set (scanned_left data idx). v < data ! idx"
proof -
  from assms have f: "1 \<le> idx" "idx + 1 < length data" "data ! (idx - 1) < data ! idx"
    by (simp_all add: localMaxima_iff)
  then obtain k where k: "idx = Suc k" "k < length data" "data ! k < data ! idx"
    by (cases idx) simp_all
  have "rev (take idx data) = data ! k # rev (take k data)"
    using k by (simp add: take_Suc_conv_app_nth)
  then show "set (scanned_left data idx) \<noteq> {}" using k by (simp add: scanned_left_def)
  show "\<forall>v\<in>set (scanned_left data idx). v < data ! idx"
    by (auto simp: scanned_left_def dest: set_takeWhileD)
qed

lemma scanned_right_props:
  assumes "idx \<in> set (localMaxima data)"
  shows "set (scanned_right data idx) \<noteq> {}" "\<forall>v\<in>set (scanned_right data idx). v < data ! idx"
proof -
  from assms have k: "idx + 1 < length data" "data ! (idx + 1) < data ! idx"
    by (auto simp: localMaxima_iff)
  have "drop (idx + 1) data = data ! (idx + 1) # drop (idx + 2) data"
    using k Cons_nth_drop_Suc[of "idx + 1" data] by simp
  then show "set (scanned_right data idx) \<noteq> {}" using k by (simp add: scanned_right_def)
  show "\<forall>v\<in>set (scanned_right data idx). v < data ! idx"
    by (auto simp: scanned_right_def dest: set_takeWhileD)
qed

lemma prominenceValue_spec:
  assumes "idx \<in> set (localMaxima data)"
  shows "prominenceValue data idx =
         data ! idx - max (Min (set (scanned_left data idx))) (Min (set (scanned_right data idx)))"
proof -
  have len: "idx \<le> length data" using assms by (simp add: localMaxima_iff)
  have l: "look_left data (data ! idx) idx (data ! idx) = Min (set (scanned_left data idx))"
    using look_left_Min[OF len order_refl, of "data ! idx"] scanned_left_props[OF assms]
    unfolding scanned_left_def by (simp add: Min_insert_above)
  have r: "look_right data (data ! idx) (idx + 1) (data ! idx) = Min (set (scanned_right data idx))"
    using look_right_Min[OF order_refl, of data "data ! idx" "idx + 1"] scanned_right_props[OF assms]
    unfolding scanned_right_def by (simp add: Min_insert_above)
  show ?thesis by (simp only: prominenceValue_def Let_def l r)
qed

lemma prominenceFilter_member:
  assumes "num_gt prominence (Finite 0)"
      and "idx \<in> set (heightFilter data height (localMaxima data))"
  shows "idx \<in> set (prominenceFilter data prominence (heightFilter data height (localMaxima data)))
         \<longleftrightarrow> num_ge (Finite (data ! idx - max (Min (set (scanned_left data idx)))
                                                 (Min (set (scanned_right data idx)))))
                     (num_times prominence (Finite (Max (set data))))"
proof -
  have lm: "idx \<in> set (localMaxima data)" using assms(2) by (simp add: heightFilter_def)
  then have "data \<noteq> []" by (auto simp: localMaxima_iff)
  then have mx: "max_arr data = Finite (Max (set data))" by (rule max_arr_Max)
  show ?thesis using assms
    by (simp add: prominenceFilter_def Let_def mx prominenceValue_spec[OF lm])
qed

subsection \<open>The distance filter\<close>

lemma tooClose_iff:
  "tooClose distance accepted idx \<longleftrightarrow> (\<exists>e\<in>set accepted. closer_than distance idx e)"
  by (simp add: tooClose_def closer_than_def list_ex_iff)

lemma closer_than_sym: "closer_than distance i j = closer_than distance j i"
  by (simp add: closer_than_def abs_minus_commute)

lemma not_closer_than_ge:
  "distance \<noteq> NaN \<Longrightarrow>
   \<not> closer_than distance i j \<longleftrightarrow> num_ge (Finite \<bar>real_of_int (int i - int j)\<bar>) distance"
  by (cases distance) (auto simp: closer_than_def num_ge_def num_le_def)

lemma processed_before_irrefl: "\<not> processed_before data a a"
  by (simp add: processed_before_def)

lemma processed_before_asym: "processed_before data a b \<Longrightarrow> \<not> processed_before data b a"
  by (auto simp: processed_before_def)

lemma accept_loop_props:
  assumes "distinct (acc @ xs)"
      and "\<forall>a\<in>set acc. \<forall>b\<in>set acc. a \<noteq> b \<longrightarrow> \<not> closer_than distance a b"
  shows "distinct (foldl (accept_step distance) acc xs)
       \<and> (\<forall>a\<in>set (foldl (accept_step distance) acc xs).
          \<forall>b\<in>set (foldl (accept_step distance) acc xs). a \<noteq> b \<longrightarrow> \<not> closer_than distance a b)"
  using assms
proof (induction xs arbitrary: acc)
  case Nil
  then show ?case by simp
next
  case (Cons x xs)
  show ?case
  proof (cases "tooClose distance acc x")
    case True
    then have st: "accept_step distance acc x = acc" by (simp add: accept_step_def)
    have "distinct (acc @ xs)" using Cons.prems(1) by simp
    from Cons.IH[OF this Cons.prems(2)] show ?thesis unfolding foldl_Cons st by auto
  next
    case False
    then have st: "accept_step distance acc x = acc @ [x]" by (simp add: accept_step_def)
    from False have far: "\<forall>e\<in>set acc. \<not> closer_than distance x e" by (simp add: tooClose_iff)
    then have far': "\<forall>e\<in>set acc. \<not> closer_than distance e x"
      by (simp add: closer_than_sym[of distance x])
    have d: "distinct ((acc @ [x]) @ xs)" using Cons.prems(1) by simp
    have p: "\<forall>a\<in>set (acc @ [x]). \<forall>b\<in>set (acc @ [x]). a \<noteq> b \<longrightarrow> \<not> closer_than distance a b"
      using Cons.prems(2) far far' by auto
    from Cons.IH[OF d p] show ?thesis unfolding foldl_Cons st by auto
  qed
qed

lemma accept_loop_char:
  assumes "sorted_wrt (processed_before data) xs"
      and "\<forall>a\<in>set acc. \<forall>x\<in>set xs. processed_before data a x"
  shows "set acc \<subseteq> set (foldl (accept_step distance) acc xs)
       \<and> set (foldl (accept_step distance) acc xs) \<subseteq> set acc \<union> set xs
       \<and> (\<forall>x\<in>set xs. x \<in> set (foldl (accept_step distance) acc xs) \<longleftrightarrow>
            \<not> (\<exists>p\<in>set (foldl (accept_step distance) acc xs).
                   processed_before data p x \<and> closer_than distance x p))"
  using assms
proof (induction xs arbitrary: acc)
  case Nil
  then show ?case by simp
next
  case (Cons x xs)
  from Cons.prems(1) have sx: "sorted_wrt (processed_before data) xs"
    and xb: "\<forall>y\<in>set xs. processed_before data x y"
    by simp_all
  have x_xs: "x \<notin> set xs" using xb processed_before_irrefl by blast
  have x_acc: "x \<notin> set acc" using Cons.prems(2) processed_before_irrefl by auto
  have acc_x: "\<forall>a\<in>set acc. processed_before data a x" using Cons.prems(2) by simp
  show ?case
  proof (cases "tooClose distance acc x")
    case True
    then have st: "accept_step distance acc x = acc" by (simp add: accept_step_def)
    let ?A = "foldl (accept_step distance) acc xs"
    have pre: "\<forall>a\<in>set acc. \<forall>y\<in>set xs. processed_before data a y"
      using Cons.prems(2) by simp
    note ih = Cons.IH[OF sx pre]
    from True obtain p where p: "p \<in> set acc" "closer_than distance x p"
      by (auto simp: tooClose_iff)
    have 1: "set acc \<subseteq> set ?A" using ih by blast
    have 2: "set ?A \<subseteq> set acc \<union> set (x # xs)" using ih by auto
    have "x \<notin> set ?A" using ih x_xs x_acc by blast
    moreover have "\<exists>p\<in>set ?A. processed_before data p x \<and> closer_than distance x p"
      using p acc_x 1 by blast
    ultimately have 3: "x \<in> set ?A \<longleftrightarrow>
        \<not> (\<exists>p\<in>set ?A. processed_before data p x \<and> closer_than distance x p)"
      by blast
    have 4: "\<forall>y\<in>set xs. y \<in> set ?A \<longleftrightarrow>
        \<not> (\<exists>p\<in>set ?A. processed_before data p y \<and> closer_than distance y p)"
      using ih by blast
    from 1 2 3 4 show ?thesis unfolding foldl_Cons st by simp
  next
    case False
    then have st: "accept_step distance acc x = acc @ [x]" by (simp add: accept_step_def)
    let ?A = "foldl (accept_step distance) (acc @ [x]) xs"
    have pre: "\<forall>a\<in>set (acc @ [x]). \<forall>y\<in>set xs. processed_before data a y"
      using Cons.prems(2) xb by auto
    note ih = Cons.IH[OF sx pre]
    have sub: "set (acc @ [x]) \<subseteq> set ?A" using ih by blast
    then have 1: "set acc \<subseteq> set ?A" and xin: "x \<in> set ?A" by auto
    have up: "set ?A \<subseteq> set (acc @ [x]) \<union> set xs" using ih by blast
    then have 2: "set ?A \<subseteq> set acc \<union> set (x # xs)" by auto
    have "\<not> (processed_before data p x \<and> closer_than distance x p)" if "p \<in> set ?A" for p
    proof -
      from that up have "p \<in> set acc \<or> p = x \<or> p \<in> set xs" by auto
      then show ?thesis
      proof (elim disjE)
        assume "p \<in> set acc"
        with False show ?thesis by (auto simp: tooClose_iff)
      next
        assume "p = x"
        then show ?thesis by (simp add: processed_before_irrefl)
      next
        assume "p \<in> set xs"
        with xb have "processed_before data x p" by blast
        then show ?thesis using processed_before_asym by blast
      qed
    qed
    with xin have 3: "x \<in> set ?A \<longleftrightarrow>
        \<not> (\<exists>p\<in>set ?A. processed_before data p x \<and> closer_than distance x p)"
      by blast
    have 4: "\<forall>y\<in>set xs. y \<in> set ?A \<longleftrightarrow>
        \<not> (\<exists>p\<in>set ?A. processed_before data p y \<and> closer_than distance y p)"
      using ih by blast
    from 1 2 3 4 show ?thesis unfolding foldl_Cons st by simp
  qed
qed

lemma insort_processed_before:
  assumes "sorted_wrt (processed_before data) ys" and "\<forall>y\<in>set ys. x < y"
  shows "sorted_wrt (processed_before data) (insort_key (\<lambda>idx. - (data ! idx)) x ys)"
  using assms
proof (induction ys)
  case Nil
  then show ?case by simp
next
  case (Cons y ys)
  show ?case
  proof (cases "data ! y \<le> data ! x")
    case True
    have "\<forall>z\<in>set (y # ys). processed_before data x z"
    proof
      fix z
      assume z: "z \<in> set (y # ys)"
      then have "data ! z \<le> data ! y"
        using Cons.prems(1) by (auto simp: processed_before_def)
      with True z Cons.prems(2) show "processed_before data x z"
        by (auto simp: processed_before_def)
    qed
    with True Cons.prems(1) show ?thesis by simp
  next
    case False
    then have yx: "processed_before data y x" by (simp add: processed_before_def)
    have ih: "sorted_wrt (processed_before data) (insort_key (\<lambda>idx. - (data ! idx)) x ys)"
      using Cons.IH Cons.prems by simp
    from False yx ih Cons.prems(1) show ?thesis by (auto simp: set_insort_key)
  qed
qed

lemma sortByHeight_order:
  "sorted_wrt (<) cands \<Longrightarrow> sorted_wrt (processed_before data) (sortByHeight data cands)"
proof (induction cands)
  case Nil
  show ?case by (simp add: sortByHeight_def)
next
  case (Cons x xs)
  then have "sorted_wrt (processed_before data) (sortByHeight data xs)"
        and "\<forall>y\<in>set (sortByHeight data xs). x < y"
    by (simp_all add: sortByHeight_def)
  then show ?case
    unfolding sortByHeight_def sort_key_simps by (rule insort_processed_before)
qed

lemma set_sortByHeight: "set (sortByHeight data cands) = set cands"
  by (simp add: sortByHeight_def)

lemma sorted_prominenceFiltered: "sorted_wrt (<) (prominenceFiltered data opts)"
  by (simp add: prominenceFiltered_def prominenceFilter_def heightFilter_def localMaxima_def
      Let_def sorted_wrt_filter)

lemma localMaxima_short: "length data < 3 \<Longrightarrow> localMaxima data = []"
  by (simp add: localMaxima_def)

lemma prominenceFiltered_short: "length data < 3 \<Longrightarrow> prominenceFiltered data opts = []"
  by (simp add: prominenceFiltered_def prominenceFilter_def heightFilter_def localMaxima_short Let_def)

lemma findPeaks_peaks:
  "peaks (findPeaks data opts) =
     sort (distanceFilter (defaulted (opt_distance opts) (Finite 1))
             (sortByHeight data (prominenceFiltered data opts)))"
proof (cases "prominenceFiltered data opts = []")
  case True
  then show ?thesis
    by (simp add: findPeaks_def Let_def sortByHeight_def distanceFilter_def)
next
  case False
  then have "\<not> length data < 3" using prominenceFiltered_short by blast
  with False show ?thesis by (simp add: findPeaks_def Let_def)
qed

lemma findPeaks_member:
  "idx \<in> set (peaks (findPeaks data opts)) \<longleftrightarrow>
     idx \<in> set (prominenceFiltered data opts) \<and>
     \<not> (\<exists>p\<in>set (peaks (findPeaks data opts)).
            processed_before data p idx \<and>
            closer_than (defaulted (opt_distance opts) (Finite 1)) idx p)"
proof -
  let ?d = "defaulted (opt_distance opts) (Finite 1)"
  let ?xs = "sortByHeight data (prominenceFiltered data opts)"
  have s: "sorted_wrt (processed_before data) ?xs"
    using sorted_prominenceFiltered by (rule sortByHeight_order)
  have P: "set (peaks (findPeaks data opts)) = set (distanceFilter ?d ?xs)"
    by (simp add: findPeaks_peaks)
  from accept_loop_char[OF s, of "[]" ?d]
  have sub: "set (distanceFilter ?d ?xs) \<subseteq> set ?xs"
    and ch: "\<forall>x\<in>set ?xs. x \<in> set (distanceFilter ?d ?xs) \<longleftrightarrow>
              \<not> (\<exists>p\<in>set (distanceFilter ?d ?xs). processed_before data p x \<and> closer_than ?d x p)"
    by (simp_all add: distanceFilter_def)
  show ?thesis unfolding P using sub ch by (auto simp: set_sortByHeight)
qed

lemma findPeaks_small:
  "findPeaks [0, 1, 0, 1, 0]
     \<lparr>opt_height = Some (Finite 0.5), opt_distance = Some (Finite 3),
      opt_prominence = Some (Finite 0)\<rparr>
   = \<lparr>peaks = [1], heights = [1]\<rparr>"
  by (simp add: findPeaks_def prominenceFiltered_def defaulted_def localMaxima_def heightFilter_def
      prominenceFilter_def sortByHeight_def distanceFilter_def accept_step_def tooClose_def
      num_gt_def num_ge_def num_le_def upt_rec)

lemma findPeaks_boundary:
  "peaks (findPeaks [0, 1, 0, 0, 1, 0]
     \<lparr>opt_height = Some (Finite 0.5), opt_distance = Some (Finite 3),
      opt_prominence = Some (Finite 0)\<rparr>) = [1, 4]"
  by (simp add: findPeaks_def prominenceFiltered_def defaulted_def localMaxima_def heightFilter_def
      prominenceFilter_def sortByHeight_def distanceFilter_def accept_step_def tooClose_def
      num_gt_def num_ge_def num_le_def upt_rec)

lemma findPeaks_taller_later:
  "peaks (findPeaks [0, 1, 0, 2, 0]
     \<lparr>opt_height = Some (Finite 0.5), opt_distance = Some (Finite 3),
      opt_prominence = Some (Finite 0)\<rparr>) = [3]"
  by (simp add: findPeaks_def prominenceFiltered_def defaulted_def localMaxima_def heightFilter_def
      prominenceFilter_def sortByHeight_def distanceFilter_def accept_step_def tooClose_def
      num_gt_def num_ge_def num_le_def upt_rec)

text \<open>C1 (as stated: of two peaks of equal height closer than \<open>distance\<close> the one with the
  lower index is retained). With three peaks of height 1 at the indices 1, 3 and 5 and
  \<open>distance = 3\<close>, the peak at 3 is suppressed by the peak at 1, and of the peaks at 3 and
  5, of equal height and two apart, the one with the higher index is retained.\<close>

theorem higher_index_retained_counterexample:
  "peaks (findPeaks [0, 1, 0, 1, 0, 1, 0]
     \<lparr>opt_height = Some (Finite 0.5), opt_distance = Some (Finite 3),
      opt_prominence = Some (Finite 0)\<rparr>) = [1, 5] \<and>
   [0, 1, 0, 1, 0, 1, 0] ! 3 = ([0, 1, 0, 1, 0, 1, 0] ! 5 :: real) \<and>
   \<bar>real_of_int (int 5 - int 3)\<bar> < (3 :: real)"
  by (simp add: findPeaks_def prominenceFiltered_def defaulted_def localMaxima_def heightFilter_def
      prominenceFilter_def sortByHeight_def distanceFilter_def accept_step_def tooClose_def
      num_gt_def num_ge_def num_le_def upt_rec)

text \<open>C1 (amended): the distance filter processes the candidates in descending order of
  height, candidates of equal height in ascending order of index, and accepts a candidate
  unless it is within \<open>distance\<close> (exclusive, \<open>|idx - accepted| < distance\<close>) of a peak
  accepted before. So an index is returned by \<open>findPeaks\<close> if and only if it is a candidate
  and no returned peak that is taller, or of equal height and lower index, is within
  \<open>distance\<close> of it. Of two candidates of equal height closer than \<open>distance\<close> at most one
  is returned, and the one with the higher index only if the one with the lower index is
  itself within \<open>distance\<close> of a returned peak processed before it.
  \<open>findPeaks [0,1,0,1,0] {height: 0.5, distance: 3, prominence: 0}\<close> returns the single
  peak index 1; two peaks exactly \<open>distance\<close> apart are both returned; a taller peak wins
  over a lower one to its left.\<close>

theorem distance_filter_greedy_by_height:
  "findPeaks [0, 1, 0, 1, 0]
     \<lparr>opt_height = Some (Finite 0.5), opt_distance = Some (Finite 3),
      opt_prominence = Some (Finite 0)\<rparr>
     = \<lparr>peaks = [1], heights = [1]\<rparr> \<and>
   peaks (findPeaks [0, 1, 0, 0, 1, 0]
     \<lparr>opt_height = Some (Finite 0.5), opt_distance = Some (Finite 3),
      opt_prominence = Some (Finite 0)\<rparr>) = [1, 4] \<and>
   peaks (findPeaks [0, 1, 0, 2, 0]
     \<lparr>opt_height = Some (Finite 0.5), opt_distance = Some (Finite 3),
      opt_prominence = Some (Finite 0)\<rparr>) = [3] \<and>
   (idx \<in> set (peaks (findPeaks data opts)) \<longleftrightarrow>
      idx \<in> set (prominenceFiltered data opts) \<and>
      \<not> (\<exists>p\<in>set (peaks (findPeaks data opts)).
             processed_before data p idx \<and>
             closer_than (defaulted (opt_distance opts) (Finite 1)) idx p)) \<and>
   (a \<in> set (prominenceFiltered data opts) \<and> b \<in> set (prominenceFiltered data opts) \<and>
    a < b \<and> data ! a = data ! b \<and> closer_than (defaulted (opt_distance opts) (Finite 1)) a b
    \<longrightarrow>
      \<not> (a \<in> set (peaks (findPeaks data opts)) \<and> b \<in> set (peaks (findPeaks data opts))) \<and>
      (b \<in> set (peaks (findPeaks data opts)) \<longrightarrow>
         (\<exists>p\<in>set (peaks (findPeaks data opts)).
            processed_before data p a \<and>
            closer_than (defaulted (opt_distance opts) (Finite 1)) a p)))"
proof -
  let ?d = "defaulted (opt_distance opts) (Finite 1)"
  let ?P = "set (peaks (findPeaks data opts))"
  have pair: "\<not> (a \<in> ?P \<and> b \<in> ?P) \<and>
      (b \<in> ?P \<longrightarrow> (\<exists>p\<in>?P. processed_before data p a \<and> closer_than ?d a p))"
    if ca: "a \<in> set (prominenceFiltered data opts)"
      and ab: "a < b" "data ! a = data ! b" "closer_than ?d a b"
  proof -
    have before: "processed_before data a b" using ab by (simp add: processed_before_def)
    have close: "closer_than ?d b a" using ab(3) by (simp add: closer_than_sym[of ?d b a])
    have notboth: "\<not> (a \<in> ?P \<and> b \<in> ?P)"
    proof
      assume both: "a \<in> ?P \<and> b \<in> ?P"
      then have "\<not> (\<exists>p\<in>?P. processed_before data p b \<and> closer_than ?d b p)"
        using findPeaks_member[of b data opts] by blast
      with both before close show False by blast
    qed
    have "\<exists>p\<in>?P. processed_before data p a \<and> closer_than ?d a p" if "b \<in> ?P"
    proof -
      from that notboth have "a \<notin> ?P" by blast
      with ca show ?thesis using findPeaks_member[of a data opts] by blast
    qed
    with notboth show ?thesis by blast
  qed
  show ?thesis
    using findPeaks_small findPeaks_boundary findPeaks_taller_later
      findPeaks_member[of idx data opts] pair
    by blast
qed

lemma prominenceFiltered_small:
  "prominenceFiltered [0, 1, 0, 1, 0]
     \<lparr>opt_height = Some (Finite 0.5), opt_distance = Some (Finite 3),
      opt_prominence = Some (Finite 0)\<rparr> = [1, 3]"
  by (simp add: prominenceFiltered_def defaulted_def localMaxima_def heightFilter_def
      prominenceFilter_def num_gt_def num_ge_def num_le_def upt_rec)

theorem distance_filter_greedy_by_height_witness:
  "1 \<in> set (prominenceFiltered [0, 1, 0, 1, 0]
              \<lparr>opt_height = Some (Finite 0.5), opt_distance = Some (Finite 3),
               opt_prominence = Some (Finite 0)\<rparr>) \<and>
   3 \<in> set (prominenceFiltered [0, 1, 0, 1, 0]
              \<lparr>opt_height = Some (Finite 0.5), opt_distance = Some (Finite 3),
               opt_prominence = Some (Finite 0)\<rparr>) \<and>
   (1 :: nat) < 3 \<and> [0, 1, 0, 1, 0] ! 1 = ([0, 1, 0, 1, 0] ! 3 :: real) \<and>
   closer_than (Finite 3) 1 3 \<and>
   \<not> (1 \<in> set (peaks (findPeaks [0, 1, 0, 1, 0]
                    \<lparr>opt_height = Some (Finite 0.5), opt_distance = Some (Finite 3),
                     opt_prominence = Some (Finite 0)\<rparr>)) \<and>
      3 \<in> set (peaks (findPeaks [0, 1, 0, 1, 0]
                    \<lparr>opt_height = Some (Finite 0.5), opt_distance = Some (Finite 3),
                     opt_prominence = Some (Finite 0)\<rparr>)))"
proof -
  let ?o = "\<lparr>opt_height = Some (Finite 0.5), opt_distance = Some (Finite 3),
             opt_prominence = Some (Finite 0)\<rparr>"
  have c: "1 \<in> set (prominenceFiltered [0, 1, 0, 1, 0] ?o)"
          "3 \<in> set (prominenceFiltered [0, 1, 0, 1, 0] ?o)"
    unfolding prominenceFiltered_small by simp_all
  have h: "(1 :: nat) < 3" "[0, 1, 0, 1, 0] ! 1 = ([0, 1, 0, 1, 0] ! 3 :: real)"
          "closer_than (Finite 3) 1 3"
    by (simp_all add: closer_than_def)
  have d: "defaulted (opt_distance ?o) (Finite 1) = Finite 3" by (simp add: defaulted_def)
  note inst = distance_filter_greedy_by_height [of 1 "[0, 1, 0, 1, 0]" ?o 1 3, unfolded d]
  from inst c h show ?thesis by blast
qed

subsection \<open>The prominence filter inside the detector\<close>

lemma prominenceFiltered_member:
  assumes "num_gt (defaulted (opt_prominence opts) (Finite 0)) (Finite 0)"
  shows "idx \<in> set (prominenceFiltered data opts) \<longleftrightarrow>
           idx \<in> set (heightFilter data (defaulted (opt_height opts) NegInfinity) (localMaxima data)) \<and>
           num_ge (Finite (data ! idx - max (Min (set (scanned_left data idx)))
                                            (Min (set (scanned_right data idx)))))
                  (num_times (defaulted (opt_prominence opts) (Finite 0)) (Finite (Max (set data))))"
proof (cases "idx \<in> set (heightFilter data (defaulted (opt_height opts) NegInfinity)
                            (localMaxima data))")
  case True
  from prominenceFilter_member[OF assms True] True show ?thesis
    unfolding prominenceFiltered_def by blast
next
  case False
  then have "idx \<notin> set (prominenceFiltered data opts)"
    by (simp add: prominenceFiltered_def prominenceFilter_def Let_def)
  with False show ?thesis by blast
qed

lemma localMaxima_prominent: "localMaxima [0, 2, 1, 6, 2, 4, 0] = [1, 3, 5]"
  by (simp add: localMaxima_def upt_rec)

lemma prominenceValue_prominent:
  "prominenceValue [0, 2, 1, 6, 2, 4, 0] 1 = 1"
  "prominenceValue [0, 2, 1, 6, 2, 4, 0] 3 = 6"
  "prominenceValue [0, 2, 1, 6, 2, 4, 0] 5 = 2"
proof -
  have m: "1 \<in> set (localMaxima [0, 2, 1, 6, 2, 4, 0])"
          "3 \<in> set (localMaxima [0, 2, 1, 6, 2, 4, 0])"
          "5 \<in> set (localMaxima [0, 2, 1, 6, 2, 4, 0])"
    unfolding localMaxima_prominent by simp_all
  show "prominenceValue [0, 2, 1, 6, 2, 4, 0] 1 = 1"
    unfolding prominenceValue_spec[OF m(1)] by (simp add: scanned_left_def scanned_right_def)
  show "prominenceValue [0, 2, 1, 6, 2, 4, 0] 3 = 6"
    unfolding prominenceValue_spec[OF m(2)]
    by (simp add: scanned_left_def scanned_right_def numeral_3_eq_3)
  show "prominenceValue [0, 2, 1, 6, 2, 4, 0] 5 = 2"
    unfolding prominenceValue_spec[OF m(3)]
    by (simp add: scanned_left_def scanned_right_def eval_nat_numeral)
qed

lemma prominenceValue_prominent_Suc: "prominenceValue [0, 2, 1, 6, 2, 4, 0] (Suc 0) = 1"
  using prominenceValue_prominent(1) by simp

lemma prominenceFiltered_prominent:
  "prominenceFiltered [0, 2, 1, 6, 2, 4, 0]
     \<lparr>opt_height = Some (Finite 1), opt_distance = Some (Finite 1),
      opt_prominence = Some (Finite 0.3)\<rparr> = [3, 5]"
  by (simp add: prominenceFiltered_def defaulted_def heightFilter_def localMaxima_prominent
      prominenceFilter_def prominenceValue_prominent prominenceValue_prominent_Suc max_arr_def
      num_gt_def num_ge_def num_le_def Let_def)

lemma findPeaks_prominent:
  "findPeaks [0, 2, 1, 6, 2, 4, 0]
     \<lparr>opt_height = Some (Finite 1), opt_distance = Some (Finite 1),
      opt_prominence = Some (Finite 0.3)\<rparr>
   = \<lparr>peaks = [3, 5], heights = [6, 4]\<rparr>"
  unfolding findPeaks_def Let_def prominenceFiltered_prominent
  by (simp add: defaulted_def sortByHeight_def distanceFilter_def accept_step_def tooClose_def)

text \<open>C4: for every envelope \<open>data\<close> and every index \<open>idx\<close> that survives the height
  filter, when \<open>prominence > 0\<close> the detector keeps \<open>idx\<close> as a candidate if and only if
  \<open>data ! idx - max leftMin rightMin \<ge> prominence * globalMax\<close>, where \<open>leftMin\<close> is the
  minimum of the samples scanned to the left of the peak until the start of the sequence
  or a sample not below the peak, \<open>rightMin\<close> is the same to the right, and \<open>globalMax\<close> is
  the maximum of the envelope. Hence \<open>findPeaks\<close> returns \<open>idx\<close> if and only if it survives
  the height filter, meets this condition, and is not suppressed by the distance filter.\<close>

theorem prominence_filter_spec:
  assumes "num_gt (defaulted (opt_prominence opts) (Finite 0)) (Finite 0)"
  shows "(idx \<in> set (heightFilter data (defaulted (opt_height opts) NegInfinity) (localMaxima data))
          \<longrightarrow>
            (idx \<in> set (prominenceFiltered data opts) \<longleftrightarrow>
               num_ge (Finite (data ! idx - max (Min (set (scanned_left data idx)))
                                                (Min (set (scanned_right data idx)))))
                      (num_times (defaulted (opt_prominence opts) (Finite 0))
                                 (Finite (Max (set data)))))) \<and>
         (idx \<in> set (peaks (findPeaks data opts)) \<longleftrightarrow>
            idx \<in> set (heightFilter data (defaulted (opt_height opts) NegInfinity)
                          (localMaxima data)) \<and>
            num_ge (Finite (data ! idx - max (Min (set (scanned_left data idx)))
                                             (Min (set (scanned_right data idx)))))
                   (num_times (defaulted (opt_prominence opts) (Finite 0))
                              (Finite (Max (set data)))) \<and>
            \<not> (\<exists>p\<in>set (peaks (findPeaks data opts)).
                   processed_before data p idx \<and>
                   closer_than (defaulted (opt_distance opts) (Finite 1)) idx p)) \<and>
         (defaulted (opt_prominence opts) (Finite 0) = Finite prominence \<longrightarrow>
            num_ge (Finite (data ! idx - max (Min (set (scanned_left data idx)))
                                             (Min (set (scanned_right data idx)))))
                   (num_times (defaulted (opt_prominence opts) (Finite 0))
                              (Finite (Max (set data))))
            = (data ! idx - max (Min (set (scanned_left data idx)))
                                (Min (set (scanned_right data idx)))
               \<ge> prominence * Max (set data)))"
proof -
  note m = prominenceFiltered_member[OF assms, of idx data]
  have 1: "idx \<in> set (heightFilter data (defaulted (opt_height opts) NegInfinity) (localMaxima data))
          \<longrightarrow>
            (idx \<in> set (prominenceFiltered data opts) \<longleftrightarrow>
               num_ge (Finite (data ! idx - max (Min (set (scanned_left data idx)))
                                                (Min (set (scanned_right data idx)))))
                      (num_times (defaulted (opt_prominence opts) (Finite 0))
                                 (Finite (Max (set data)))))"
    using m by blast
  have 2: "idx \<in> set (peaks (findPeaks data opts)) \<longleftrightarrow>
            idx \<in> set (heightFilter data (defaulted (opt_height opts) NegInfinity)
                          (localMaxima data)) \<and>
            num_ge (Finite (data ! idx - max (Min (set (scanned_left data idx)))
                                             (Min (set (scanned_right data idx)))))
                   (num_times (defaulted (opt_prominence opts) (Finite 0))
                              (Finite (Max (set data)))) \<and>
            \<not> (\<exists>p\<in>set (peaks (findPeaks data opts)).
                   processed_before data p idx \<and>
                   closer_than (defaulted (opt_distance opts) (Finite 1)) idx p)"
    using findPeaks_member[of idx data opts] m by blast
  have 3: "defaulted (opt_prominence opts) (Finite 0) = Finite prominence \<longrightarrow>
            num_ge (Finite (data ! idx - max (Min (set (scanned_left data idx)))
                                             (Min (set (scanned_right data idx)))))
                   (num_times (defaulted (opt_prominence opts) (Finite 0))
                              (Finite (Max (set data))))
            = (data ! idx - max (Min (set (scanned_left data idx)))
                                (Min (set (scanned_right data idx)))
               \<ge> prominence * Max (set data))"
    by (auto simp: num_ge_def num_le_def)
  from 1 2 3 show ?thesis by blast
qed

theorem prominence_filter_spec_witness:
  "num_gt (Finite 0.3) (Finite 0) \<and>
   3 \<in> set (heightFilter [0, 2, 1, 6, 2, 4, 0] (Finite 1) (localMaxima [0, 2, 1, 6, 2, 4, 0])) \<and>
   3 \<in> set (peaks (findPeaks [0, 2, 1, 6, 2, 4, 0]
                     \<lparr>opt_height = Some (Finite 1), opt_distance = Some (Finite 1),
                      opt_prominence = Some (Finite 0.3)\<rparr>)) \<and>
   [0, 2, 1, 6, 2, 4, 0] ! 3
     - max (Min (set (scanned_left [0, 2, 1, 6, 2, 4, 0] 3)))
           (Min (set (scanned_right [0, 2, 1, 6, 2, 4, 0] 3)))
     \<ge> 0.3 * Max (set [0, 2, 1, 6, 2, 4, 0 :: real]) \<and>
   1 \<in> set (heightFilter [0, 2, 1, 6, 2, 4, 0] (Finite 1) (localMaxima [0, 2, 1, 6, 2, 4, 0])) \<and>
   1 \<notin> set (peaks (findPeaks [0, 2, 1, 6, 2, 4, 0]
                     \<lparr>opt_height = Some (Finite 1), opt_distance = Some (Finite 1),
                      opt_prominence = Some (Finite 0.3)\<rparr>)) \<and>
   \<not> [0, 2, 1, 6, 2, 4, 0] ! 1
     - max (Min (set (scanned_left [0, 2, 1, 6, 2, 4, 0] 1)))
           (Min (set (scanned_right [0, 2, 1, 6, 2, 4, 0] 1)))
     \<ge> 0.3 * Max (set [0, 2, 1, 6, 2, 4, 0 :: real])"
proof -
  let ?D = "[0, 2, 1, 6, 2, 4, 0] :: real list"
  let ?o = "\<lparr>opt_height = Some (Finite 1), opt_distance = Some (Finite 1),
             opt_prominence = Some (Finite 0.3)\<rparr>"
  have dp: "defaulted (opt_prominence ?o) (Finite 0) = Finite 0.3"
   and dh: "defaulted (opt_height ?o) NegInfinity = Finite 1"
    by (simp_all add: defaulted_def)
  have h1: "num_gt (defaulted (opt_prominence ?o) (Finite 0)) (Finite 0)"
    unfolding dp by (simp add: num_gt_def)
  have g: "num_gt (Finite 0.3) (Finite 0)" by (simp add: num_gt_def)
  have h2: "3 \<in> set (heightFilter ?D (Finite 1) (localMaxima ?D))"
           "1 \<in> set (heightFilter ?D (Finite 1) (localMaxima ?D))"
    by (simp_all add: heightFilter_def localMaxima_def num_ge_def num_le_def upt_rec)
  have c3: "?D ! 3 - max (Min (set (scanned_left ?D 3))) (Min (set (scanned_right ?D 3)))
            \<ge> 0.3 * Max (set ?D)"
    by (simp add: scanned_left_def scanned_right_def numeral_3_eq_3)
  have c1: "\<not> ?D ! 1 - max (Min (set (scanned_left ?D 1))) (Min (set (scanned_right ?D 1)))
            \<ge> 0.3 * Max (set ?D)"
    by (simp add: scanned_left_def scanned_right_def)
  have p: "3 \<in> set (peaks (findPeaks ?D ?o))" unfolding findPeaks_prominent by simp
  note inst3 = prominence_filter_spec
                 [OF h1, where idx = 3 and data = "?D" and prominence = "0.3", unfolded dp dh]
  note inst1 = prominence_filter_spec
                 [OF h1, where idx = 1 and data = "?D" and prominence = "0.3", unfolded dp dh]
  have "1 \<notin> set (peaks (findPeaks ?D ?o))"
    using inst1 c1 by blast
  with g h2 p c3 c1 inst3 show ?thesis by blast
qed

subsection \<open>Order and spacing of the returned indices\<close>

lemma distinct_sortByHeight_candidates:
  "distinct (sortByHeight data (prominenceFiltered data opts))"
  using sorted_prominenceFiltered[of data opts]
  by (simp add: sortByHeight_def strict_sorted_iff)

lemma findPeaks_nan:
  "peaks (findPeaks [0, 1, 0, 1, 0]
            \<lparr>opt_height = None, opt_distance = Some NaN, opt_prominence = None\<rparr>) = [1, 3]"
  by (simp add: findPeaks_def prominenceFiltered_def defaulted_def localMaxima_def heightFilter_def
      prominenceFilter_def sortByHeight_def distanceFilter_def accept_step_def tooClose_def
      num_gt_def num_ge_def num_le_def upt_rec)

text \<open>C7 (as stated: every pair of returned indices differs by at least the distance
  option, for every option set). The distance may be \<open>NaN\<close>, which is what the detector
  passes when the minimum shot spacing is \<open>NaN\<close>; then no candidate is suppressed, the
  peaks at 1 and 3 are both returned, and \<open>|1 - 3| \<ge> NaN\<close> is false.\<close>

theorem nan_distance_counterexample:
  "peaks (findPeaks [0, 1, 0, 1, 0]
            \<lparr>opt_height = None, opt_distance = Some NaN, opt_prominence = None\<rparr>) = [1, 3] \<and>
   \<not> num_ge (Finite \<bar>real_of_int (int 1 - int 3)\<bar>) NaN"
  by (simp add: findPeaks_nan num_ge_def num_le_def)

text \<open>C7 (amended): for every input sequence and every option set, the peak indices
  returned by \<open>findPeaks\<close> are strictly increasing (hence unique), and no two different
  returned indices, consecutive or not, are closer than the distance option (1 when the
  option is absent): \<open>|i - j| < distance\<close> is false. When the distance is not \<open>NaN\<close>, any
  two different returned indices differ by at least the distance.\<close>

theorem findPeaks_increasing_and_apart:
  "sorted_wrt (<) (peaks (findPeaks data opts)) \<and>
   (\<forall>i\<in>set (peaks (findPeaks data opts)). \<forall>j\<in>set (peaks (findPeaks data opts)).
      i \<noteq> j \<longrightarrow>
        \<not> num_lt (Finite \<bar>real_of_int (int i - int j)\<bar>) (defaulted (opt_distance opts) (Finite 1)) \<and>
        (defaulted (opt_distance opts) (Finite 1) \<noteq> NaN \<longrightarrow>
           num_ge (Finite \<bar>real_of_int (int i - int j)\<bar>) (defaulted (opt_distance opts) (Finite 1))))"
proof -
  let ?d = "defaulted (opt_distance opts) (Finite 1)"
  let ?c = "sortByHeight data (prominenceFiltered data opts)"
  have dc: "distinct ([] @ ?c)" using distinct_sortByHeight_candidates by simp
  have e: "\<forall>a\<in>set []. \<forall>b\<in>set []. a \<noteq> b \<longrightarrow> \<not> closer_than ?d a (b :: nat)" by simp
  from accept_loop_props[OF dc e]
  have dist: "distinct (distanceFilter ?d ?c)"
   and far: "\<forall>a\<in>set (distanceFilter ?d ?c). \<forall>b\<in>set (distanceFilter ?d ?c).
               a \<noteq> b \<longrightarrow> \<not> closer_than ?d a b"
    by (simp_all add: distanceFilter_def)
  have s: "sorted_wrt (<) (peaks (findPeaks data opts))"
    using dist by (simp add: findPeaks_peaks strict_sorted_iff)
  have P: "set (peaks (findPeaks data opts)) = set (distanceFilter ?d ?c)"
    by (simp add: findPeaks_peaks)
  have pairs: "\<not> num_lt (Finite \<bar>real_of_int (int i - int j)\<bar>) ?d \<and>
        (?d \<noteq> NaN \<longrightarrow> num_ge (Finite \<bar>real_of_int (int i - int j)\<bar>) ?d)"
    if "i \<in> set (peaks (findPeaks data opts))" "j \<in> set (peaks (findPeaks data opts))" "i \<noteq> j"
    for i j
  proof -
    from that far have n: "\<not> closer_than ?d i j" unfolding P by blast
    then have "\<not> num_lt (Finite \<bar>real_of_int (int i - int j)\<bar>) ?d"
      by (simp add: closer_than_def)
    moreover have "num_ge (Finite \<bar>real_of_int (int i - int j)\<bar>) ?d" if "?d \<noteq> NaN"
      using n not_closer_than_ge[OF that, of i j] by blast
    ultimately show ?thesis by blast
  qed
  from s pairs show ?thesis by blast
qed

lemma findPeaks_three:
  "peaks (findPeaks [0, 1, 0, 3, 0, 0, 2, 0]
     \<lparr>opt_height = None, opt_distance = Some (Finite 3), opt_prominence = None\<rparr>) = [3, 6]"
  by (simp add: findPeaks_def prominenceFiltered_def defaulted_def localMaxima_def heightFilter_def
      prominenceFilter_def sortByHeight_def distanceFilter_def accept_step_def tooClose_def
      num_gt_def num_ge_def num_le_def upt_rec)

theorem findPeaks_increasing_and_apart_witness:
  "peaks (findPeaks [0, 1, 0, 3, 0, 0, 2, 0]
            \<lparr>opt_height = None, opt_distance = Some (Finite 3), opt_prominence = None\<rparr>) = [3, 6] \<and>
   sorted_wrt (<) [3, 6 :: nat] \<and> (3::nat) \<noteq> 6 \<and> Finite 3 \<noteq> NaN \<and>
   \<not> num_lt (Finite \<bar>real_of_int (int 3 - int 6)\<bar>) (Finite 3) \<and>
   num_ge (Finite \<bar>real_of_int (int 3 - int 6)\<bar>) (Finite 3)"
proof -
  let ?o = "\<lparr>opt_height = None, opt_distance = Some (Finite 3), opt_prominence = None\<rparr>"
  have d: "defaulted (opt_distance ?o) (Finite 1) = Finite 3" by (simp add: defaulted_def)
  note inst = findPeaks_increasing_and_apart
                [of "[0, 1, 0, 3, 0, 0, 2, 0]" ?o, unfolded d findPeaks_three]
  have m: "(3::nat) \<in> set [3, 6]" "(6::nat) \<in> set [3, 6]" "(3::nat) \<noteq> 6" "Finite 3 \<noteq> NaN"
    by simp_all
  from inst m have "\<not> num_lt (Finite \<bar>real_of_int (int 3 - int 6)\<bar>) (Finite 3) \<and>
                    num_ge (Finite \<bar>real_of_int (int 3 - int 6)\<bar>) (Finite 3)"
    by blast
  with inst m findPeaks_three show ?thesis by blast
qed

section \<open>The detector's stages\<close>

text \<open>C2 (as stated: burst grouping invoked before peak detection fails with an error).
  On a detector fresh from the constructor, \<open>groupIntoBursts\<close> returns normally and leaves
  the detector as it was.\<close>

theorem grouping_before_detection_counterexample:
  "groupIntoBursts (RateOfFireDetector no_options) = Inr (RateOfFireDetector no_options)"
  by (simp add: groupIntoBursts_def RateOfFireDetector_def)

text \<open>C2 (amended): envelope calculation invoked before the audio is loaded fails with an
  error, and peak detection invoked before the envelope is calculated fails with an
  error; burst grouping never fails, invoked before peak detection (no shot times) it
  returns with the detector unchanged, and rate calculation invoked before grouping (no
  bursts) returns the empty list.\<close>

theorem stage_prerequisites:
  "(audioData d = None \<or> falsy_rate (sampleRate d)
      \<longrightarrow> calculateEnvelope d = Inl MustCallExtractAudioFirst) \<and>
   (envelope d = None \<or> falsy_rate (sampleRate d)
      \<longrightarrow> detectPeaks d = Inl MustCallCalculateEnvelopeFirst) \<and>
   (\<exists>d'. groupIntoBursts d = Inr d') \<and>
   (shotTimes d = [] \<longrightarrow> groupIntoBursts d = Inr d) \<and>
   (bursts d = [] \<longrightarrow> calculateRates d = Some [])"
  by (auto simp: calculateEnvelope_def detectPeaks_def groupIntoBursts_def calculateRates_def
      Let_def split: option.splits)

theorem stage_prerequisites_witness:
  "audioData (RateOfFireDetector no_options) = None \<and>
   calculateEnvelope (RateOfFireDetector no_options) = Inl MustCallExtractAudioFirst \<and>
   envelope (RateOfFireDetector no_options) = None \<and>
   detectPeaks (RateOfFireDetector no_options) = Inl MustCallCalculateEnvelopeFirst \<and>
   shotTimes (RateOfFireDetector no_options) = [] \<and>
   groupIntoBursts (RateOfFireDetector no_options) = Inr (RateOfFireDetector no_options) \<and>
   bursts (RateOfFireDetector no_options) = [] \<and>
   calculateRates (RateOfFireDetector no_options) = Some []"
proof -
  have h: "audioData (RateOfFireDetector no_options) = None"
          "envelope (RateOfFireDetector no_options) = None"
          "shotTimes (RateOfFireDetector no_options) = []"
          "bursts (RateOfFireDetector no_options) = []"
    by (simp_all add: RateOfFireDetector_def)
  from stage_prerequisites [of "RateOfFireDetector no_options"] h show ?thesis by blast
qed

text \<open>C10: when burst grouping is invoked with no shot times it returns before the burst
  list is reset: the detector, and so its stored burst list, is exactly as before the
  call; a burst list left by an earlier run is kept.\<close>

theorem early_return_keeps_bursts:
  "shotTimes d = [] \<Longrightarrow> groupIntoBursts d = Inr d"
  by (simp add: groupIntoBursts_def)

theorem early_return_keeps_bursts_witness:
  "shotTimes stale_detector = [] \<and> groupIntoBursts stale_detector = Inr stale_detector \<and>
   bursts stale_detector = [[0, 1, 2]]"
proof -
  have h: "shotTimes stale_detector = []"
    by (simp add: stale_detector_def RateOfFireDetector_def)
  have b: "bursts stale_detector = [[0, 1, 2]]"
    by (simp add: stale_detector_def)
  from early_return_keeps_bursts [OF h] h b show ?thesis by blast
qed

text \<open>C5: with burst gap threshold 0.2 and minimum burst count 3, the shot times
  0.0, 0.1, 0.15, 0.5, 0.55, 0.6 are grouped into exactly two bursts, split at the gap of
  0.35, the shots 0.0, 0.1, 0.15 and the shots 0.5, 0.55, 0.6; both are kept.\<close>

theorem two_burst_grouping:
  "groupIntoBursts two_burst_fixture
     = Inr (two_burst_fixture\<lparr>bursts := [[0, 1, 2], [3, 4, 5]]\<rparr>) \<and>
   map_option (map burstShotTimes)
     (calculateRates (two_burst_fixture\<lparr>bursts := [[0, 1, 2], [3, 4, 5]]\<rparr>))
     = Some [[0.0, 0.1, 0.15], [0.5, 0.55, 0.6]]"
  by (simp add: two_burst_fixture_def no_options_def nullish_def num_le_def num_ge_def groupIntoBursts_def group_step_def
      calculateRates_def burst_readable_def burstInfo_def RateOfFireDetector_def upt_rec Let_def)

section \<open>Rates\<close>

lemma group_step_readable:
  assumes "i < length ts" and "list_all (burst_readable ts) (fst st)" and "burst_readable ts (snd st)"
  shows "list_all (burst_readable ts) (fst (group_step ts g m st i)) \<and>
         burst_readable ts (snd (group_step ts g m st i))"
  using assms by (simp add: group_step_def Let_def burst_readable_def)

lemma group_loop_readable:
  assumes "\<forall>i\<in>set js. i < length ts"
      and "list_all (burst_readable ts) (fst st)" and "burst_readable ts (snd st)"
  shows "list_all (burst_readable ts) (fst (foldl (group_step ts g m) st js)) \<and>
         burst_readable ts (snd (foldl (group_step ts g m) st js))"
  using assms
proof (induction js arbitrary: st)
  case Nil
  then show ?case by simp
next
  case (Cons j js)
  have j: "j < length ts" and rest: "\<forall>i\<in>set js. i < length ts"
    using Cons.prems(1) by simp_all
  from group_step_readable[OF j Cons.prems(2) Cons.prems(3), of g m]
  have "list_all (burst_readable ts) (fst (group_step ts g m st j))"
   and "burst_readable ts (snd (group_step ts g m st j))"
    by simp_all
  from Cons.IH[OF rest this] show ?case by simp
qed

lemma groupIntoBursts_readable:
  assumes "shotTimes d \<noteq> []" and "groupIntoBursts d = Inr d'"
  shows "shotTimes d' = shotTimes d" and "list_all (burst_readable (shotTimes d')) (bursts d')"
proof -
  let ?ts = "shotTimes d"
  let ?st = "foldl (group_step ?ts (burstGapThreshold d) (minBurstCount d)) ([], [0])
                   [1 ..< length ?ts]"
  let ?final = "if num_ge (Finite (real (length (snd ?st)))) (minBurstCount d)
                then fst ?st @ [snd ?st] else fst ?st"
  from assms have d': "d' = d\<lparr>bursts := ?final\<rparr>"
    by (auto simp: groupIntoBursts_def Let_def)
  then show ts: "shotTimes d' = shotTimes d" by simp
  have "\<forall>i\<in>set [1 ..< length ?ts]. i < length ?ts" by simp
  moreover have "list_all (burst_readable ?ts) (fst (([], [0]) :: nat list list \<times> nat list))"
    by simp
  moreover have "burst_readable ?ts (snd (([], [0]) :: nat list list \<times> nat list))"
    using assms(1) by (simp add: burst_readable_def)
  ultimately have "list_all (burst_readable ?ts) (fst ?st) \<and> burst_readable ?ts (snd ?st)"
    by (rule group_loop_readable)
  then have "list_all (burst_readable ?ts) ?final" by simp
  then show "list_all (burst_readable (shotTimes d')) (bursts d')"
    unfolding ts unfolding d' by simp
qed

lemma calculateRates_readable:
  assumes "list_all (burst_readable (shotTimes d)) (bursts d)"
  shows "calculateRates d =
           Some (map (\<lambda>burstIdx. burstInfo (shotTimes d) burstIdx (bursts d ! burstIdx))
                     [0 ..< length (bursts d)])"
  using assms by (simp add: calculateRates_def)

lemma burstInfo_fields:
  "numShots (burstInfo ts k b) = length b"
  "burstShotTimes (burstInfo ts k b) = map (\<lambda>idx. ts ! idx) b"
  "duration (burstInfo ts k b)
     = map (\<lambda>idx. ts ! idx) b ! (length b - 1) - map (\<lambda>idx. ts ! idx) b ! 0"
  "rateRpm (burstInfo ts k b) =
     (if duration (burstInfo ts k b) > 0
      then (real (numShots (burstInfo ts k b)) - 1) / duration (burstInfo ts k b) * 60 else 0)"
  by (simp_all only: burstInfo_def Let_def burst_info.select_convs length_map)

lemma burstInfo_rate:
  assumes "b \<noteq> []"
  shows "numShots (burstInfo ts k b) = length b \<and>
         burstShotTimes (burstInfo ts k b) = map (\<lambda>idx. ts ! idx) b \<and>
         duration (burstInfo ts k b) = ts ! last b - ts ! hd b \<and>
         rateRpm (burstInfo ts k b) =
           (if duration (burstInfo ts k b) > 0
            then (real (numShots (burstInfo ts k b)) - 1) / duration (burstInfo ts k b) * 60
            else 0) \<and>
         (numShots (burstInfo ts k b) = 5 \<and> duration (burstInfo ts k b) = 0.4
            \<longrightarrow> rateRpm (burstInfo ts k b) = 600)"
proof -
  let ?r = "burstInfo ts k b"
  have first: "map (\<lambda>idx. ts ! idx) b ! 0 = ts ! hd b"
    using assms by (simp add: hd_conv_nth)
  have final: "map (\<lambda>idx. ts ! idx) b ! (length b - 1) = ts ! last b"
    using assms by (simp add: last_conv_nth)
  have 2: "duration ?r = ts ! last b - ts ! hd b"
    by (simp only: burstInfo_fields(3) first final)
  note 3 = burstInfo_fields(4)[of ts k b]
  have 4: "numShots ?r = 5 \<and> duration ?r = 0.4 \<longrightarrow> rateRpm ?r = 600"
  proof (intro impI, elim conjE)
    assume a: "numShots ?r = 5" and b: "duration ?r = 0.4"
    from 3 [unfolded a b] show "rateRpm ?r = 600" by simp
  qed
  from burstInfo_fields(1)[of ts k b] burstInfo_fields(2)[of ts k b] 2 3 4 show ?thesis by blast
qed

text \<open>C8: for every burst that grouping finalizes, rate calculation returns one record, in
  the order of the bursts; its duration is the time of the burst's last shot minus the
  time of its first shot, and its \<open>rateRpm\<close> is \<open>(shotCount - 1) / duration * 60\<close> when the
  duration is positive and 0 otherwise (the guard against a division by zero); so a burst
  of 5 shots spanning 0.4 s has \<open>rateRpm = 600\<close>.\<close>

theorem burst_rate_formula:
  assumes "shotTimes d \<noteq> []" and "groupIntoBursts d = Inr d'"
  shows "\<exists>rs. calculateRates d' = Some rs \<and> length rs = length (bursts d') \<and>
           (\<forall>k < length (bursts d').
              numShots (rs ! k) = length (bursts d' ! k) \<and>
              burstShotTimes (rs ! k) = map (\<lambda>idx. shotTimes d' ! idx) (bursts d' ! k) \<and>
              duration (rs ! k)
                = shotTimes d' ! last (bursts d' ! k) - shotTimes d' ! hd (bursts d' ! k) \<and>
              rateRpm (rs ! k) =
                (if duration (rs ! k) > 0
                 then (real (numShots (rs ! k)) - 1) / duration (rs ! k) * 60 else 0) \<and>
              (numShots (rs ! k) = 5 \<and> duration (rs ! k) = 0.4 \<longrightarrow> rateRpm (rs ! k) = 600))"
proof -
  let ?rs = "map (\<lambda>burstIdx. burstInfo (shotTimes d') burstIdx (bursts d' ! burstIdx))
                 [0 ..< length (bursts d')]"
  note ok = groupIntoBursts_readable(2)[OF assms]
  have c: "calculateRates d' = Some ?rs" using ok by (rule calculateRates_readable)
  have l: "length ?rs = length (bursts d')" by simp
  have f: "numShots (?rs ! k) = length (bursts d' ! k) \<and>
           burstShotTimes (?rs ! k) = map (\<lambda>idx. shotTimes d' ! idx) (bursts d' ! k) \<and>
           duration (?rs ! k)
             = shotTimes d' ! last (bursts d' ! k) - shotTimes d' ! hd (bursts d' ! k) \<and>
           rateRpm (?rs ! k) =
             (if duration (?rs ! k) > 0
              then (real (numShots (?rs ! k)) - 1) / duration (?rs ! k) * 60 else 0) \<and>
           (numShots (?rs ! k) = 5 \<and> duration (?rs ! k) = 0.4 \<longrightarrow> rateRpm (?rs ! k) = 600)"
    if k: "k < length (bursts d')" for k
  proof -
    have ne: "bursts d' ! k \<noteq> []"
      using ok k by (auto simp: list_all_length burst_readable_def)
    have nth: "?rs ! k = burstInfo (shotTimes d') k (bursts d' ! k)" using k by simp
    show ?thesis unfolding nth by (rule burstInfo_rate[OF ne])
  qed
  from c l f show ?thesis by blast
qed

lemma five_shot_grouping:
  "groupIntoBursts five_shot_fixture = Inr (five_shot_fixture\<lparr>bursts := [[0, 1, 2, 3, 4]]\<rparr>)"
  by (simp add: five_shot_fixture_def groupIntoBursts_def group_step_def RateOfFireDetector_def
      no_options_def nullish_def num_le_def num_ge_def upt_rec Let_def)

lemma single_shot_grouping:
  "groupIntoBursts single_shot_fixture = Inr (single_shot_fixture\<lparr>bursts := [[0]]\<rparr>)"
  by (simp add: single_shot_fixture_def groupIntoBursts_def group_step_def RateOfFireDetector_def
      no_options_def nullish_def num_le_def num_ge_def Let_def)

theorem burst_rate_formula_witness:
  "shotTimes five_shot_fixture \<noteq> [] \<and>
   groupIntoBursts five_shot_fixture = Inr (five_shot_fixture\<lparr>bursts := [[0, 1, 2, 3, 4]]\<rparr>) \<and>
   map_option length (calculateRates (five_shot_fixture\<lparr>bursts := [[0, 1, 2, 3, 4]]\<rparr>)) = Some 1 \<and>
   map_option (map numShots) (calculateRates (five_shot_fixture\<lparr>bursts := [[0, 1, 2, 3, 4]]\<rparr>))
     = Some [5] \<and>
   map_option (map duration) (calculateRates (five_shot_fixture\<lparr>bursts := [[0, 1, 2, 3, 4]]\<rparr>))
     = Some [0.4] \<and>
   map_option (map rateRpm) (calculateRates (five_shot_fixture\<lparr>bursts := [[0, 1, 2, 3, 4]]\<rparr>))
     = Some [600] \<and>
   shotTimes single_shot_fixture \<noteq> [] \<and>
   groupIntoBursts single_shot_fixture = Inr (single_shot_fixture\<lparr>bursts := [[0]]\<rparr>) \<and>
   map_option (map duration) (calculateRates (single_shot_fixture\<lparr>bursts := [[0]]\<rparr>)) = Some [0] \<and>
   map_option (map rateRpm) (calculateRates (single_shot_fixture\<lparr>bursts := [[0]]\<rparr>)) = Some [0]"
proof -
  let ?five = "five_shot_fixture\<lparr>bursts := [[0, 1, 2, 3, 4]]\<rparr>"
  let ?one = "single_shot_fixture\<lparr>bursts := [[0]]\<rparr>"
  have ne: "shotTimes five_shot_fixture \<noteq> []" "shotTimes single_shot_fixture \<noteq> []"
    by (simp_all add: five_shot_fixture_def single_shot_fixture_def)
  from burst_rate_formula [OF ne(1) five_shot_grouping]
  obtain rs where rs: "calculateRates ?five = Some rs" "length rs = length (bursts ?five)"
    and k: "\<forall>k < length (bursts ?five).
              numShots (rs ! k) = length (bursts ?five ! k) \<and>
              burstShotTimes (rs ! k) = map (\<lambda>idx. shotTimes ?five ! idx) (bursts ?five ! k) \<and>
              duration (rs ! k)
                = shotTimes ?five ! last (bursts ?five ! k) - shotTimes ?five ! hd (bursts ?five ! k) \<and>
              rateRpm (rs ! k) =
                (if duration (rs ! k) > 0
                 then (real (numShots (rs ! k)) - 1) / duration (rs ! k) * 60 else 0) \<and>
              (numShots (rs ! k) = 5 \<and> duration (rs ! k) = 0.4 \<longrightarrow> rateRpm (rs ! k) = 600)"
    by blast
  have l: "length rs = 1" using rs(2) by simp
  then obtain r where r: "rs = [r]" by (cases rs) simp_all
  have k0: "0 < length (bursts ?five)" by simp
  have n: "numShots r = 5" using k k0 r by simp
  have d: "duration r = 0.4" using k k0 r by (simp add: five_shot_fixture_def)
  have q: "rateRpm r = 600" using k k0 r n d by simp
  from burst_rate_formula [OF ne(2) single_shot_grouping]
  obtain ss where ss: "calculateRates ?one = Some ss" "length ss = length (bursts ?one)"
    and j: "\<forall>k < length (bursts ?one).
              numShots (ss ! k) = length (bursts ?one ! k) \<and>
              burstShotTimes (ss ! k) = map (\<lambda>idx. shotTimes ?one ! idx) (bursts ?one ! k) \<and>
              duration (ss ! k)
                = shotTimes ?one ! last (bursts ?one ! k) - shotTimes ?one ! hd (bursts ?one ! k) \<and>
              rateRpm (ss ! k) =
                (if duration (ss ! k) > 0
                 then (real (numShots (ss ! k)) - 1) / duration (ss ! k) * 60 else 0) \<and>
              (numShots (ss ! k) = 5 \<and> duration (ss ! k) = 0.4 \<longrightarrow> rateRpm (ss ! k) = 600)"
    by blast
  have "length ss = 1" using ss(2) by simp
  then obtain s where s: "ss = [s]" by (cases ss) simp_all
  have j0: "0 < length (bursts ?one)" by simp
  have d0: "duration s = 0" using j j0 s by (simp add: single_shot_fixture_def)
  have q0: "rateRpm s = 0" using j j0 s d0 by simp
  show ?thesis
    using ne five_shot_grouping single_shot_grouping rs(1) r n d q ss(1) s d0 q0 by simp
qed

section \<open>The summary: pooled rate and mean of the burst rates\<close>

lemma overall_from_parts:
  "overallRateRpm (generateSummary rs) =
     (if rs = [] then Finite 0 else
      if length (concat (map burstShotTimes rs)) \<ge> 2 then
         num_times (num_divide (Finite (real (length (concat (map burstShotTimes rs))) - 1))
             (num_minus (max_arr (concat (map burstShotTimes rs)))
                        (min_arr (concat (map burstShotTimes rs)))))
           (Finite 60)
      else Finite 0)"
  by (simp add: generateSummary_def Let_def)

lemma mean_from_parts:
  "meanBurstRateRpm (generateSummary rs) = mean (map rateRpm rs)"
  by (simp add: generateSummary_def Let_def mean_def)

lemma equal_rates_grouping:
  "groupIntoBursts equal_rates_fixture =
     Inr (equal_rates_fixture\<lparr>bursts := [[0, 1, 2, 3, 4, 5, 6, 7, 8, 9, 10, 11, 12, 13],
                                          [14, 15, 16, 17, 18]]\<rparr>)"
  by (simp add: equal_rates_fixture_def no_options_def nullish_def num_le_def num_ge_def groupIntoBursts_def group_step_def
      RateOfFireDetector_def upt_rec Let_def)

lemma equal_rates_rates:
  "map_option (map rateRpm)
     (calculateRates (equal_rates_fixture\<lparr>bursts := [[0, 1, 2, 3, 4, 5, 6, 7, 8, 9, 10, 11, 12, 13],
                                                      [14, 15, 16, 17, 18]]\<rparr>))
   = Some [60, 30]"
  by (simp add: equal_rates_fixture_def no_options_def nullish_def num_le_def num_ge_def
      calculateRates_def burst_readable_def burstInfo_def RateOfFireDetector_def upt_rec Let_def)

lemma equal_rates_times:
  "map_option (map burstShotTimes)
     (calculateRates (equal_rates_fixture\<lparr>bursts := [[0, 1, 2, 3, 4, 5, 6, 7, 8, 9, 10, 11, 12, 13],
                                                      [14, 15, 16, 17, 18]]\<rparr>))
   = Some [[0, 1, 2, 3, 4, 5, 6, 7, 8, 9, 10, 11, 12, 13], [16, 18, 20, 22, 24]]"
  by (simp add: equal_rates_fixture_def no_options_def nullish_def num_le_def num_ge_def
      calculateRates_def burst_readable_def burstInfo_def RateOfFireDetector_def upt_rec Let_def)

text \<open>C6 (as stated: on every fixture with two or more bursts separated by idle gaps the
  pooled rate differs from the mean of the burst rates). With the default minimum burst
  count and a burst gap threshold of 2.5 s, fourteen shots one second apart followed,
  after a gap of three seconds, by five shots two seconds apart give two bursts with the
  rates 60 and 30; their mean is 45, and the pooled rate \<open>(19 - 1) / 24 * 60\<close> is 45 too.\<close>

theorem pooled_rate_equals_mean_counterexample:
  "groupIntoBursts equal_rates_fixture =
     Inr (equal_rates_fixture\<lparr>bursts := [[0, 1, 2, 3, 4, 5, 6, 7, 8, 9, 10, 11, 12, 13],
                                          [14, 15, 16, 17, 18]]\<rparr>) \<and>
   map_option (map rateRpm)
     (calculateRates (equal_rates_fixture\<lparr>bursts := [[0, 1, 2, 3, 4, 5, 6, 7, 8, 9, 10, 11, 12, 13],
                                                      [14, 15, 16, 17, 18]]\<rparr>))
     = Some [60, 30] \<and>
   map_option (overallRateRpm \<circ> generateSummary)
     (calculateRates (equal_rates_fixture\<lparr>bursts := [[0, 1, 2, 3, 4, 5, 6, 7, 8, 9, 10, 11, 12, 13],
                                                      [14, 15, 16, 17, 18]]\<rparr>))
     = Some (Finite 45) \<and>
   map_option (meanBurstRateRpm \<circ> generateSummary)
     (calculateRates (equal_rates_fixture\<lparr>bursts := [[0, 1, 2, 3, 4, 5, 6, 7, 8, 9, 10, 11, 12, 13],
                                                      [14, 15, 16, 17, 18]]\<rparr>))
     = Some 45"
proof -
  let ?d = "equal_rates_fixture\<lparr>bursts := [[0, 1, 2, 3, 4, 5, 6, 7, 8, 9, 10, 11, 12, 13],
                                            [14, 15, 16, 17, 18]]\<rparr>"
  obtain rs where rs: "calculateRates ?d = Some rs"
    using equal_rates_rates by (cases "calculateRates ?d") simp_all
  have r: "map rateRpm rs = [60, 30]" using equal_rates_rates rs by simp
  have t: "map burstShotTimes rs
           = [[0, 1, 2, 3, 4, 5, 6, 7, 8, 9, 10, 11, 12, 13], [16, 18, 20, 22, 24]]"
    using equal_rates_times rs by simp
  have ne: "rs \<noteq> []" using r by auto
  have o: "overallRateRpm (generateSummary rs) = Finite 45"
    by (simp add: overall_from_parts ne t max_arr_def min_arr_def)
  have m: "meanBurstRateRpm (generateSummary rs) = 45"
    by (simp add: mean_from_parts r mean_def)
  show ?thesis using equal_rates_grouping rs r o m by simp
qed

lemma two_burst_rates:
  "map_option (map rateRpm) (calculateRates (two_burst_fixture\<lparr>bursts := [[0, 1, 2], [3, 4, 5]]\<rparr>))
   = Some [800, 1200]"
  by (simp add: two_burst_fixture_def no_options_def nullish_def num_le_def num_ge_def
      calculateRates_def burst_readable_def burstInfo_def RateOfFireDetector_def upt_rec Let_def)

lemma two_burst_times:
  "map_option (map burstShotTimes)
     (calculateRates (two_burst_fixture\<lparr>bursts := [[0, 1, 2], [3, 4, 5]]\<rparr>))
   = Some [[0.0, 0.1, 0.15], [0.5, 0.55, 0.6]]"
  by (simp add: two_burst_fixture_def no_options_def nullish_def num_le_def num_ge_def
      calculateRates_def burst_readable_def burstInfo_def RateOfFireDetector_def upt_rec Let_def)

text \<open>C6 (amended): whenever the bursts pool at least two shots with different times,
  \<open>overallRateRpm\<close> is \<open>(totalCount - 1) / (maxTime - minTime) * 60\<close> over all pooled shot times,
  and the mean burst rate is the sum of the burst rates over their number; the two differ
  on some fixtures with two bursts separated by an idle gap (on the six shots
  0.0, 0.1, 0.15, 0.5, 0.55, 0.6 the pooled rate is 500 and the mean of the burst rates
  800 and 1200 is 1000).\<close>

theorem pooled_rate_formula:
  "(rs \<noteq> [] \<and> length (concat (map burstShotTimes rs)) \<ge> 2 \<and>
    Max (set (concat (map burstShotTimes rs))) \<noteq> Min (set (concat (map burstShotTimes rs)))
    \<longrightarrow>
      overallRateRpm (generateSummary rs)
        = Finite ((real (length (concat (map burstShotTimes rs))) - 1)
                  / (Max (set (concat (map burstShotTimes rs)))
                     - Min (set (concat (map burstShotTimes rs)))) * 60) \<and>
      meanBurstRateRpm (generateSummary rs) = sum_list (map rateRpm rs) / real (length rs)) \<and>
   map_option (overallRateRpm \<circ> generateSummary)
     (calculateRates (two_burst_fixture\<lparr>bursts := [[0, 1, 2], [3, 4, 5]]\<rparr>)) = Some (Finite 500) \<and>
   map_option (meanBurstRateRpm \<circ> generateSummary)
     (calculateRates (two_burst_fixture\<lparr>bursts := [[0, 1, 2], [3, 4, 5]]\<rparr>)) = Some 1000"
proof -
  have general: "overallRateRpm (generateSummary rs)
        = Finite ((real (length (concat (map burstShotTimes rs))) - 1)
                  / (Max (set (concat (map burstShotTimes rs)))
                     - Min (set (concat (map burstShotTimes rs)))) * 60) \<and>
      meanBurstRateRpm (generateSummary rs) = sum_list (map rateRpm rs) / real (length rs)"
    if ne: "rs \<noteq> []" and two: "length (concat (map burstShotTimes rs)) \<ge> 2"
      and dist: "Max (set (concat (map burstShotTimes rs)))
                 \<noteq> Min (set (concat (map burstShotTimes rs)))"
  proof -
    let ?all = "concat (map burstShotTimes rs)"
    have "?all \<noteq> []"
    proof
      assume e: "?all = []"
      from two show False unfolding e by simp
    qed
    then have mm: "max_arr ?all = Finite (Max (set ?all))" "min_arr ?all = Finite (Min (set ?all))"
      by (rule max_arr_Max, rule min_arr_Min)
    have "overallRateRpm (generateSummary rs)
        = Finite ((real (length ?all) - 1) / (Max (set ?all) - Min (set ?all)) * 60)"
      using ne two dist by (simp add: overall_from_parts mm)
    moreover have "meanBurstRateRpm (generateSummary rs)
                   = sum_list (map rateRpm rs) / real (length rs)"
      by (simp add: mean_from_parts mean_sum_list)
    ultimately show ?thesis by simp
  qed
  let ?d = "two_burst_fixture\<lparr>bursts := [[0, 1, 2], [3, 4, 5]]\<rparr>"
  obtain bs where bs: "calculateRates ?d = Some bs"
    using two_burst_rates by (cases "calculateRates ?d") simp_all
  have r: "map rateRpm bs = [800, 1200]" using two_burst_rates bs by simp
  have t: "map burstShotTimes bs = [[0.0, 0.1, 0.15], [0.5, 0.55, 0.6]]"
    using two_burst_times bs by simp
  have ne: "bs \<noteq> []" using r by auto
  have o: "overallRateRpm (generateSummary bs) = Finite 500"
    by (simp add: overall_from_parts ne t max_arr_def min_arr_def)
  have m: "meanBurstRateRpm (generateSummary bs) = 1000"
    by (simp add: mean_from_parts r mean_def)
  show ?thesis using general bs o m by simp
qed

theorem pooled_rate_formula_witness:
  "[burstInfo [0, 1, 2, 10, 11] 0 [0, 1, 2], burstInfo [0, 1, 2, 10, 11] 1 [3, 4]] \<noteq> [] \<and>
   length (concat (map burstShotTimes
     [burstInfo [0, 1, 2, 10, 11] 0 [0, 1, 2], burstInfo [0, 1, 2, 10, 11] 1 [3, 4]])) \<ge> 2 \<and>
   Max (set (concat (map burstShotTimes
     [burstInfo [0, 1, 2, 10, 11] 0 [0, 1, 2], burstInfo [0, 1, 2, 10, 11] 1 [3, 4]])))
   \<noteq> Min (set (concat (map burstShotTimes
     [burstInfo [0, 1, 2, 10, 11] 0 [0, 1, 2], burstInfo [0, 1, 2, 10, 11] 1 [3, 4]]))) \<and>
   overallRateRpm (generateSummary
     [burstInfo [0, 1, 2, 10, 11] 0 [0, 1, 2], burstInfo [0, 1, 2, 10, 11] 1 [3, 4]])
     = Finite ((5 - 1) / (11 - 0) * 60) \<and>
   meanBurstRateRpm (generateSummary
     [burstInfo [0, 1, 2, 10, 11] 0 [0, 1, 2], burstInfo [0, 1, 2, 10, 11] 1 [3, 4]])
     = (60 + 60) / 2"
proof -
  let ?rs = "[burstInfo [0, 1, 2, 10, 11] 0 [0, 1, 2], burstInfo [0, 1, 2, 10, 11] 1 [3, 4]]"
  have t: "concat (map burstShotTimes ?rs) = [0, 1, 2, 10, 11]"
    by (simp add: burstInfo_def Let_def)
  have r: "map rateRpm ?rs = [60, 60]"
    by (simp add: burstInfo_def Let_def)
  have h: "?rs \<noteq> []" "length (concat (map burstShotTimes ?rs)) \<ge> 2"
          "Max (set (concat (map burstShotTimes ?rs))) \<noteq> Min (set (concat (map burstShotTimes ?rs)))"
    unfolding t by simp_all
  from pooled_rate_formula [of ?rs] h
  have "overallRateRpm (generateSummary ?rs)
        = Finite ((real (length (concat (map burstShotTimes ?rs))) - 1)
                  / (Max (set (concat (map burstShotTimes ?rs)))
                     - Min (set (concat (map burstShotTimes ?rs)))) * 60)"
   and "meanBurstRateRpm (generateSummary ?rs) = sum_list (map rateRpm ?rs) / real (length ?rs)"
    by blast+
  then have "overallRateRpm (generateSummary ?rs) = Finite ((5 - 1) / (11 - 0) * 60)"
        and "meanBurstRateRpm (generateSummary ?rs) = (60 + 60) / 2"
    unfolding t r by simp_all
  with h show ?thesis by blast
qed

end
